theory Spec2Isabelle
  imports Complex_Main "HOL-Library.Word" "HOL-Library.AList"
begin

unbundle bit_operations_syntax

section \<open>Strings and bytes\<close>

text \<open>
  A JavaScript string (one without unpaired surrogates) is modelled by the bytes of its
  UTF-8 encoding, one \<open>char\<close> per byte, so a \<open>Buffer\<close> and a string share the type \<open>string\<close>
  and \<open>Buffer.from(str)\<close> is the identity. All separators the code looks for (\<open>.\<close>, \<open>+\<close>,
  \<open>/\<close>, \<open>-\<close>, \<open>_\<close>, \<open>=\<close>) are ASCII, and an ASCII byte never occurs inside a multi-byte
  UTF-8 sequence, so \<open>split\<close>, \<open>replace\<close>, \<open>includes\<close> and \<open>startsWith\<close> act on the bytes as
  they act on the text. Where the code counts or reads the UTF-16 code units of a string
  (\<open>str.length\<close>, the Base64 decoder), the model reads them off the bytes with
  \<open>code_units\<close>.
\<close>

definition chr :: "nat \<Rightarrow> char" where
  "chr n = Char (odd n) (odd (n div 2)) (odd (n div 4)) (odd (n div 8))
                (odd (n div 16)) (odd (n div 32)) (odd (n div 64)) (odd (n div 128))"

definition ord :: "char \<Rightarrow> nat" where
  "ord c = of_char c"

text \<open>
  The UTF-16 code units of a string: one for a sequence of one, two or three bytes, a
  surrogate pair for a sequence of four. A byte that does not start a sequence counts as
  a unit by itself (such bytes do not occur in the encoding of a string).
\<close>

definition continuations :: "nat \<Rightarrow> string \<Rightarrow> bool" where
  "continuations k r =
     (k \<le> length r \<and> list_all (\<lambda>c. 128 \<le> ord c \<and> ord c < 192) (take k r))"

fun code_units :: "string \<Rightarrow> nat list" where
  "code_units [] = []"
| "code_units (a # r) =
     (let n = ord a in
      if 192 \<le> n \<and> n < 224 \<and> continuations 1 r then
        ((n - 192) * 64 + (ord (r ! 0) - 128)) # code_units (drop 1 r)
      else if 224 \<le> n \<and> n < 240 \<and> continuations 2 r then
        ((n - 224) * 4096 + (ord (r ! 0) - 128) * 64 + (ord (r ! 1) - 128))
          # code_units (drop 2 r)
      else if 240 \<le> n \<and> n < 248 \<and> continuations 3 r then
        (let cp = (n - 240) * 262144 + (ord (r ! 0) - 128) * 4096 +
                  (ord (r ! 1) - 128) * 64 + (ord (r ! 2) - 128)
         in [55296 + (cp - 65536) div 1024, 56320 + (cp - 65536) mod 1024]
            @ code_units (drop 3 r))
      else n # code_units r)"

text \<open>\<open>str.length\<close>: the number of code units.\<close>

definition str_length :: "string \<Rightarrow> nat" where
  "str_length s = length (code_units s)"

text \<open>\<open>str.split(d)\<close> for a one-character separator: \<open>n\<close> separators give \<open>n + 1\<close> parts.\<close>

fun str_split :: "char \<Rightarrow> string \<Rightarrow> string list" where
  "str_split d [] = [[]]"
| "str_split d (c # cs) =
     (let r = str_split d cs in if c = d then [] # r else (c # hd r) # tl r)"

text \<open>\<open>str.replace(/a/g, b)\<close> and \<open>str.replace(/a/g, '')\<close> for a single character \<open>a\<close>.\<close>

definition replace_all :: "char \<Rightarrow> char \<Rightarrow> string \<Rightarrow> string" where
  "replace_all a b s = map (\<lambda>c. if c = a then b else c) s"

definition remove_all :: "char \<Rightarrow> string \<Rightarrow> string" where
  "remove_all a s = filter (\<lambda>c. c \<noteq> a) s"

fun str_startsWith :: "string \<Rightarrow> string \<Rightarrow> bool" where
  "str_startsWith s [] = True"
| "str_startsWith [] (p # ps) = False"
| "str_startsWith (c # cs) (p # ps) = (c = p \<and> str_startsWith cs ps)"

fun str_includes :: "string \<Rightarrow> string \<Rightarrow> bool" where
  "str_includes [] p = (p = [])"
| "str_includes (c # cs) p = (str_startsWith (c # cs) p \<or> str_includes cs p)"

text \<open>Decimal rendering of an integer, as \<open>Number.prototype.toString\<close> and
  \<open>JSON.stringify\<close> give it for integers below \<open>10^21\<close> in absolute value.\<close>

fun show_nat :: "nat \<Rightarrow> string" where
  "show_nat n =
     (if n < 10 then [''0123456789'' ! n]
      else show_nat (n div 10) @ [''0123456789'' ! (n mod 10)])"

declare show_nat.simps [simp del]

definition show_int :: "int \<Rightarrow> string" where
  "show_int i = (if i < 0 then CHR ''-'' # show_nat (nat (- i)) else show_nat (nat i))"

section \<open>Base64\<close>

definition b64_alphabet :: string where
  "b64_alphabet = ''ABCDEFGHIJKLMNOPQRSTUVWXYZabcdefghijklmnopqrstuvwxyz0123456789+/''"

definition b64_char :: "nat \<Rightarrow> char" where
  "b64_char n = b64_alphabet ! (n mod 64)"

text \<open>\<open>buf.toString('base64')\<close> and \<open>digest('base64')\<close>: the standard alphabet, padded
  with \<open>=\<close> to a multiple of four characters.\<close>

fun base64_encode :: "string \<Rightarrow> string" where
  "base64_encode (a # b # c # rest) =
     (let n = ord a * 65536 + ord b * 256 + ord c
      in [b64_char (n div 262144), b64_char (n div 4096), b64_char (n div 64), b64_char n]
         @ base64_encode rest)"
| "base64_encode [a, b] =
     (let n = ord a * 65536 + ord b * 256
      in [b64_char (n div 262144), b64_char (n div 4096), b64_char (n div 64), CHR ''=''])"
| "base64_encode [a] =
     (let n = ord a * 65536
      in [b64_char (n div 262144), b64_char (n div 4096), CHR ''='', CHR ''=''])"
| "base64_encode [] = []"

text \<open>The value of a Base64 character in Node's decoding table, which accepts both the
  standard and the URL-safe alphabet; \<open>None\<close> for every other character.\<close>

definition unbase64 :: "char \<Rightarrow> nat option" where
  "unbase64 c =
     (let n = ord c in
      if 65 \<le> n \<and> n \<le> 90 then Some (n - 65)
      else if 97 \<le> n \<and> n \<le> 122 then Some (n - 71)
      else if 48 \<le> n \<and> n \<le> 57 then Some (n + 4)
      else if c = CHR ''+'' \<or> c = CHR ''-'' then Some 62
      else if c = CHR ''/'' \<or> c = CHR ''_'' then Some 63
      else None)"

fun decode_sextets :: "nat list \<Rightarrow> string" where
  "decode_sextets (a # b # c # d # rest) =
     (let n = a * 262144 + b * 4096 + c * 64 + d
      in [chr (n div 65536), chr (n div 256), chr n] @ decode_sextets rest)"
| "decode_sextets [a, b, c] =
     (let n = a * 262144 + b * 4096 + c * 64 in [chr (n div 65536), chr (n div 256)])"
| "decode_sextets [a, b] = [chr ((a * 262144 + b * 4096) div 65536)]"
| "decode_sextets [a] = []"
| "decode_sextets [] = []"

text \<open>\<open>Buffer.from(str, 'base64')\<close>: Node's decoder reads every UTF-16 code unit of the
  string by its low byte (so U+0141 reads as \<open>A\<close>). Decoding stops at the first \<open>=\<close>,
  characters outside the table are skipped, and a trailing group of two or three
  characters gives one or two bytes.\<close>

definition low_bytes :: "string \<Rightarrow> string" where
  "low_bytes s = map chr (code_units s)"

definition base64_decode :: "string \<Rightarrow> string" where
  "base64_decode s =
     decode_sextets
       (List.map_filter unbase64 (takeWhile (\<lambda>c. c \<noteq> CHR ''='') (low_bytes s)))"

section \<open>HMAC-SHA256\<close>

text \<open>
  \<open>crypto.createHmac('sha256', key).update(msg).digest()\<close> is Node's HMAC (RFC 2104) over
  SHA-256 (FIPS 180-4), on the UTF-8 bytes of key and message; the digest is 32 bytes.
\<close>

type_synonym w32 = "32 word"

text \<open>The round constants and the initial hash value of FIPS 180-4 (sections 4.2.2 and
  5.3.3), in decimal.\<close>

definition K256 :: "w32 list" where
  "K256 = [
    1116352408, 1899447441, 3049323471, 3921009573, 961987163, 1508970993,
    2453635748, 2870763221, 3624381080, 310598401, 607225278, 1426881987,
    1925078388, 2162078206, 2614888103, 3248222580, 3835390401, 4022224774,
    264347078, 604807628, 770255983, 1249150122, 1555081692, 1996064986,
    2554220882, 2821834349, 2952996808, 3210313671, 3336571891, 3584528711,
    113926993, 338241895, 666307205, 773529912, 1294757372, 1396182291,
    1695183700, 1986661051, 2177026350, 2456956037, 2730485921, 2820302411,
    3259730800, 3345764771, 3516065817, 3600352804, 4094571909, 275423344,
    430227734, 506948616, 659060556, 883997877, 958139571, 1322822218,
    1537002063, 1747873779, 1955562222, 2024104815, 2227730452, 2361852424,
    2428436474, 2756734187, 3204031479, 3329325298]"

record hstate =
  h0 :: w32  h1 :: w32  h2 :: w32  h3 :: w32
  h4 :: w32  h5 :: w32  h6 :: w32  h7 :: w32

definition sha_init :: hstate where
  "sha_init = \<lparr>h0 = 1779033703, h1 = 3144134277, h2 = 1013904242, h3 = 2773480762,
               h4 = 1359893119, h5 = 2600822924, h6 = 528734635, h7 = 1541459225\<rparr>"

definition rotr :: "nat \<Rightarrow> w32 \<Rightarrow> w32" where
  "rotr n x = word_rotr n x"

definition be32 :: "w32 \<Rightarrow> string" where
  "be32 w = map (\<lambda>i. chr (unat (drop_bit (24 - 8 * i) w))) [0..<4]"

definition be64 :: "nat \<Rightarrow> string" where
  "be64 n = map (\<lambda>d. chr (n div d))
     [72057594037927936, 281474976710656, 1099511627776, 4294967296, 16777216, 65536, 256, 1]"

definition word_of_bytes :: "string \<Rightarrow> w32" where
  "word_of_bytes bs = foldl (\<lambda>acc b. push_bit 8 acc OR of_char b) 0 bs"

definition chunks :: "nat \<Rightarrow> 'a list \<Rightarrow> 'a list list" where
  "chunks n xs = map (\<lambda>i. take n (drop (i * n) xs)) [0..<length xs div n]"

definition sha_pad :: "string \<Rightarrow> string" where
  "sha_pad m =
     m @ [chr 128] @ replicate ((119 - length m mod 64) mod 64) (chr 0) @ be64 (8 * length m)"

definition schedule_step :: "w32 list \<Rightarrow> w32 list" where
  "schedule_step w =
     (let i = length w;
          x = w ! (i - 15); y = w ! (i - 2);
          s0 = rotr 7 x XOR rotr 18 x XOR drop_bit 3 x;
          s1 = rotr 17 y XOR rotr 19 y XOR drop_bit 10 y
      in w @ [w ! (i - 16) + s0 + w ! (i - 7) + s1])"

definition schedule :: "string \<Rightarrow> w32 list" where
  "schedule block = (schedule_step ^^ 48) (map word_of_bytes (chunks 4 block))"

definition round256 :: "hstate \<Rightarrow> w32 \<times> w32 \<Rightarrow> hstate" where
  "round256 s kw =
     (let a = h0 s; e = h4 s;
          S1 = rotr 6 e XOR rotr 11 e XOR rotr 25 e;
          ch = (e AND h5 s) XOR (NOT e AND h6 s);
          t1 = h7 s + S1 + ch + fst kw + snd kw;
          S0 = rotr 2 a XOR rotr 13 a XOR rotr 22 a;
          maj = (a AND h1 s) XOR (a AND h2 s) XOR (h1 s AND h2 s);
          t2 = S0 + maj
      in \<lparr>h0 = t1 + t2, h1 = a, h2 = h1 s, h3 = h2 s,
          h4 = h3 s + t1, h5 = e, h6 = h5 s, h7 = h6 s\<rparr>)"

definition compress :: "hstate \<Rightarrow> string \<Rightarrow> hstate" where
  "compress s block =
     (let r = foldl round256 s (zip K256 (schedule block))
      in \<lparr>h0 = h0 s + h0 r, h1 = h1 s + h1 r, h2 = h2 s + h2 r, h3 = h3 s + h3 r,
          h4 = h4 s + h4 r, h5 = h5 s + h5 r, h6 = h6 s + h6 r, h7 = h7 s + h7 r\<rparr>)"

definition sha256 :: "string \<Rightarrow> string" where
  "sha256 m =
     (let s = foldl compress sha_init (chunks 64 (sha_pad m))
      in concat (map be32 [h0 s, h1 s, h2 s, h3 s, h4 s, h5 s, h6 s, h7 s]))"

definition hmac_sha256 :: "string \<Rightarrow> string \<Rightarrow> string" where
  "hmac_sha256 key msg =
     (let k0 = (if length key > 64 then sha256 key else key);
          k = k0 @ replicate (64 - length k0) (chr 0)
      in sha256 (map (\<lambda>b. chr (ord b XOR 92)) k @
                 sha256 (map (\<lambda>b. chr (ord b XOR 54)) k @ msg)))"

section \<open>The signing secret\<close>

text \<open>
  \<open>const JWT_SECRET = process.env.JWT_SECRET || 'default-secret-change-in-production'\<close>,
  evaluated when the module is loaded (\<open>src/lib/auth.ts\<close> line 4, and the same line in the
  login route). The argument is the environment variable: \<open>None\<close> when it is not set.
  \<open>||\<close> takes the right operand when the left one is falsy, so the empty string falls back
  as well.
\<close>

definition JWT_SECRET :: "string option \<Rightarrow> string" where
  "JWT_SECRET env =
     (case env of
        None \<Rightarrow> ''default-secret-change-in-production''
      | Some s \<Rightarrow> if s = [] then ''default-secret-change-in-production'' else s)"

section \<open>Minting\<close>

text \<open>
  \<open>JSON.stringify\<close> at the two object literals of \<open>generateToken\<close>: a flat object whose
  values are strings and integers (\<open>Date.now()\<close> is an integer number of milliseconds, far
  below \<open>10^21\<close>). A string is quoted with the escapes of ECMA-262 \<open>QuoteJSONString\<close>.
\<close>

datatype jlit = LStr string | LInt int

definition hex4 :: "nat \<Rightarrow> string" where
  "hex4 n = map (\<lambda>d. ''0123456789abcdef'' ! (n div d mod 16)) [4096, 256, 16, 1]"

definition quote_char :: "char \<Rightarrow> string" where
  "quote_char c =
     (if c = CHR 0x22 then [CHR 0x5C, CHR 0x22]
      else if c = CHR 0x5C then [CHR 0x5C, CHR 0x5C]
      else if c = CHR 0x08 then [CHR 0x5C, CHR ''b'']
      else if c = CHR 0x09 then [CHR 0x5C, CHR ''t'']
      else if c = CHR 0x0A then [CHR 0x5C, CHR ''n'']
      else if c = CHR 0x0C then [CHR 0x5C, CHR ''f'']
      else if c = CHR 0x0D then [CHR 0x5C, CHR ''r'']
      else if ord c < 32 then [CHR 0x5C, CHR ''u''] @ hex4 (ord c)
      else [c])"

definition quote :: "string \<Rightarrow> string" where
  "quote s = [CHR 0x22] @ concat (map quote_char s) @ [CHR 0x22]"

fun stringify_lit :: "jlit \<Rightarrow> string" where
  "stringify_lit (LStr s) = quote s"
| "stringify_lit (LInt i) = show_int i"

fun stringify_members :: "(string \<times> jlit) list \<Rightarrow> string" where
  "stringify_members [] = []"
| "stringify_members [(k, v)] = quote k @ '':'' @ stringify_lit v"
| "stringify_members ((k, v) # m # ms) =
     quote k @ '':'' @ stringify_lit v @ '','' @ stringify_members (m # ms)"

definition JSON_stringify :: "(string \<times> jlit) list \<Rightarrow> string" where
  "JSON_stringify members = ''{'' @ stringify_members members @ ''}''"

text \<open>
  \<open>generateToken\<close> of the login route in \<open>src/unnamed/part_001\<close> (lines 171-187). It reads
  the clock twice, for \<open>iat\<close> and for \<open>exp\<close>; \<open>now_iat\<close> and \<open>now_exp\<close> are the two
  readings. Header, payload and signature are in standard Base64, as
  \<open>toString('base64')\<close> and \<open>digest('base64')\<close> give it.
\<close>

definition generateToken :: "string \<Rightarrow> int \<Rightarrow> int \<Rightarrow> string \<Rightarrow> string \<Rightarrow> string" where
  "generateToken secret now_iat now_exp userId openid =
     (let header = base64_encode
            (JSON_stringify [(''alg'', LStr ''HS256''), (''typ'', LStr ''JWT'')]);
          payload = base64_encode
            (JSON_stringify [(''sub'', LStr userId), (''openid'', LStr openid),
               (''iat'', LInt now_iat), (''exp'', LInt (now_exp + 7 * 24 * 60 * 60 * 1000))]);
          signature = base64_encode (hmac_sha256 secret (header @ ''.'' @ payload))
      in header @ ''.'' @ payload @ ''.'' @ signature)"

text \<open>
  \<open>generateToken\<close> of \<open>src/app/api/auth/wechat/login/route.ts\<close> (lines 165-194), the
  sibling of the function above: the same token, with every section passed through
  \<open>toBase64Url\<close> (\<open>+\<close> to \<open>-\<close>, \<open>/\<close> to \<open>_\<close>, padding removed).
\<close>

definition toBase64Url :: "string \<Rightarrow> string" where
  "toBase64Url s =
     remove_all (CHR ''='') (replace_all (CHR ''/'') (CHR ''_'')
       (replace_all (CHR ''+'') (CHR ''-'') (base64_encode s)))"

definition login_generateToken :: "string \<Rightarrow> int \<Rightarrow> int \<Rightarrow> string \<Rightarrow> string \<Rightarrow> string" where
  "login_generateToken secret now_iat now_exp userId openid =
     (let header = toBase64Url
            (JSON_stringify [(''alg'', LStr ''HS256''), (''typ'', LStr ''JWT'')]);
          payload = toBase64Url
            (JSON_stringify [(''sub'', LStr userId), (''openid'', LStr openid),
               (''iat'', LInt now_iat), (''exp'', LInt (now_exp + 7 * 24 * 60 * 60 * 1000))]);
          signature = remove_all (CHR ''='') (replace_all (CHR ''/'') (CHR ''_'')
            (replace_all (CHR ''+'') (CHR ''-'')
               (base64_encode (hmac_sha256 secret (header @ ''.'' @ payload)))))
      in header @ ''.'' @ payload @ ''.'' @ signature)"

section \<open>Decoding\<close>

text \<open>
  \<open>buf.toString()\<close>: UTF-8 decoding as Node does it (the WHATWG decoder without byte-order
  mark handling). In the byte model a well-formed sequence is kept as it is and every
  maximal ill-formed part becomes U+FFFD, the bytes \<open>EF BF BD\<close>. The state is the pending
  bytes of the current sequence, the number of continuation bytes still needed and the
  bounds for the next byte.
\<close>

definition replacement :: string where
  "replacement = [CHR 0xEF, CHR 0xBF, CHR 0xBD]"

fun utf8_scrub :: "string \<Rightarrow> nat \<Rightarrow> nat \<Rightarrow> nat \<Rightarrow> string \<Rightarrow> string" where
  "utf8_scrub pend need lo hi [] = (if need = 0 then [] else replacement)"
| "utf8_scrub pend need lo hi (b # bs) =
     (if need = 0 then
        (if ord b < 128 then b # utf8_scrub [] 0 128 191 bs
         else if 194 \<le> ord b \<and> ord b \<le> 223 then utf8_scrub [b] 1 128 191 bs
         else if 224 \<le> ord b \<and> ord b \<le> 239 then
           utf8_scrub [b] 2 (if ord b = 224 then 160 else 128)
             (if ord b = 237 then 159 else 191) bs
         else if 240 \<le> ord b \<and> ord b \<le> 244 then
           utf8_scrub [b] 3 (if ord b = 240 then 144 else 128)
             (if ord b = 244 then 143 else 191) bs
         else replacement @ utf8_scrub [] 0 128 191 bs)
      else if lo \<le> ord b \<and> ord b \<le> hi then
        (if need = 1 then pend @ [b] @ utf8_scrub [] 0 128 191 bs
         else utf8_scrub (pend @ [b]) (need - 1) 128 191 bs)
      else replacement @ utf8_scrub [] 0 128 191 (b # bs))"

definition Buffer_toString :: "string \<Rightarrow> string" where
  "Buffer_toString bytes = utf8_scrub [] 0 128 191 bytes"

section \<open>JSON.parse\<close>

text \<open>
  A JavaScript number is an IEEE 754 double. A finite double other than minus zero is
  kept as the rational number it denotes; \<open>NaN\<close>, the infinities and minus zero are values
  of their own.
\<close>

datatype jsnum = NaN | NegInfinity | NegZero | Finite rat | PosInfinity

text \<open>
  The double nearest to a rational, ties to the even significand, as a numeric literal
  is converted. \<open>binade q\<close> is the exponent \<open>e\<close> with \<open>2^e \<le> q < 2^(e+1)\<close> for a positive
  \<open>q\<close>; a double has 53 significant bits, so its last place is worth \<open>2^(e-52)\<close>, and
  \<open>2^(-1074)\<close> below the normal range; what rounds to \<open>2^1024\<close> is infinite.
\<close>

fun ilog2 :: "nat \<Rightarrow> nat" where
  "ilog2 n = (if n < 2 then 0 else Suc (ilog2 (n div 2)))"

declare ilog2.simps [simp del]

definition pow2 :: "int \<Rightarrow> rat" where
  "pow2 e = (if 0 \<le> e then 2 ^ nat e else 1 / 2 ^ nat (- e))"

definition binade :: "rat \<Rightarrow> int" where
  "binade q =
     (if 1 \<le> q then int (ilog2 (nat \<lfloor>q\<rfloor>))
      else - int (Suc (ilog2 (nat (\<lceil>1 / q\<rceil> - 1)))))"

definition round_half_even :: "rat \<Rightarrow> int" where
  "round_half_even x =
     (let f = \<lfloor>x\<rfloor>; d = x - of_int f
      in if d < 1 / 2 then f
         else if 1 / 2 < d then f + 1
         else if even f then f else f + 1)"

definition round_magnitude :: "rat \<Rightarrow> jsnum" where
  "round_magnitude q =
     (if q \<le> 0 then Finite 0
      else
        (let e = max (binade q) (- 1022);
             ulp = pow2 (e - 52);
             v = of_int (round_half_even (q / ulp)) * ulp
         in if pow2 1024 \<le> v then PosInfinity else Finite v))"

text \<open>The number of a literal with sign \<open>neg\<close> and magnitude \<open>q\<close>.\<close>

definition to_double :: "bool \<Rightarrow> rat \<Rightarrow> jsnum" where
  "to_double neg q =
     (case round_magnitude q of
        Finite v \<Rightarrow> if neg then (if v = 0 then NegZero else Finite (- v)) else Finite v
      | _ \<Rightarrow> if neg then NegInfinity else PosInfinity)"

text \<open>
  JavaScript values as far as \<open>JSON.parse\<close> and property reads produce them. An object is
  the list of its members in source order; a later duplicate key wins. \<open>Function\<close> stands
  for a built-in method read off a prototype.
\<close>

datatype jsval =
    Undefined | Null | Bool bool | Num jsnum | Str string
  | Arr "jsval list" | Obj "(string \<times> jsval) list" | Function string

datatype exn = SyntaxError | TypeError | Error string

definition is_digit :: "char \<Rightarrow> bool" where
  "is_digit c = (48 \<le> ord c \<and> ord c \<le> 57)"

definition digits_value :: "string \<Rightarrow> nat" where
  "digits_value ds = foldl (\<lambda>a d. 10 * a + (ord d - 48)) 0 ds"

definition json_ws :: "char \<Rightarrow> bool" where
  "json_ws c = (c = CHR 0x20 \<or> c = CHR 0x09 \<or> c = CHR 0x0A \<or> c = CHR 0x0D)"

definition skip_ws :: "string \<Rightarrow> string" where
  "skip_ws s = dropWhile json_ws s"

definition hex_digit :: "char \<Rightarrow> nat option" where
  "hex_digit c =
     (let n = ord c in
      if 48 \<le> n \<and> n \<le> 57 then Some (n - 48)
      else if 97 \<le> n \<and> n \<le> 102 then Some (n - 87)
      else if 65 \<le> n \<and> n \<le> 70 then Some (n - 55)
      else None)"

text \<open>The code unit of a \<open>\uXXXX\<close> escape: the value of the first four characters, which
  must all be hexadecimal digits.\<close>

definition hex4_value :: "string \<Rightarrow> nat option" where
  "hex4_value s =
     (case map hex_digit (take 4 s) of
        [Some a, Some b, Some c, Some d] \<Rightarrow> Some (a * 4096 + b * 256 + c * 16 + d)
      | _ \<Rightarrow> None)"

text \<open>The UTF-8 bytes of a code point; a lone surrogate gets its three-byte form.\<close>

definition utf8_encode :: "nat \<Rightarrow> string" where
  "utf8_encode cp =
     (if cp < 128 then [chr cp]
      else if cp < 2048 then [chr (192 + cp div 64), chr (128 + cp mod 64)]
      else if cp < 65536 then
        [chr (224 + cp div 4096), chr (128 + cp div 64 mod 64), chr (128 + cp mod 64)]
      else [chr (240 + cp div 262144), chr (128 + cp div 4096 mod 64),
            chr (128 + cp div 64 mod 64), chr (128 + cp mod 64)])"

definition unescape :: "char \<Rightarrow> char option" where
  "unescape e =
     (if e = CHR 0x22 \<or> e = CHR 0x5C \<or> e = CHR ''/'' then Some e
      else if e = CHR ''b'' then Some (CHR 0x08)
      else if e = CHR ''f'' then Some (CHR 0x0C)
      else if e = CHR ''n'' then Some (CHR 0x0A)
      else if e = CHR ''r'' then Some (CHR 0x0D)
      else if e = CHR ''t'' then Some (CHR 0x09)
      else None)"

text \<open>The low surrogate of a \<open>\uXXXX\<close> escape at the head of the input, if there is one.\<close>

definition low_surrogate :: "string \<Rightarrow> nat option" where
  "low_surrogate s =
     (if str_startsWith s [CHR 0x5C, CHR ''u''] then
        (case hex4_value (drop 2 s) of
           None \<Rightarrow> None
         | Some lo \<Rightarrow> if 56320 \<le> lo \<and> lo < 57344 then Some lo else None)
      else None)"

text \<open>The characters of a string literal after its opening quote: the content and the
  input after the closing quote. \<open>None\<close> is a \<open>SyntaxError\<close>.\<close>

fun parse_chars :: "string \<Rightarrow> (string \<times> string) option" where
  "parse_chars [] = None"
| "parse_chars (c # cs) =
     (if c = CHR 0x22 then Some ([], cs)
      else if ord c < 32 then None
      else if c = CHR 0x5C then
        (case cs of
           [] \<Rightarrow> None
         | e # r \<Rightarrow>
             if e = CHR ''u'' then
               (case hex4_value r of
                  None \<Rightarrow> None
                | Some u \<Rightarrow>
                    (case (if 55296 \<le> u \<and> u < 56320 then low_surrogate (drop 4 r) else None) of
                       Some lo \<Rightarrow>
                         map_option (apfst ((@) (utf8_encode
                             (65536 + (u - 55296) * 1024 + (lo - 56320)))))
                           (parse_chars (drop 10 r))
                     | None \<Rightarrow>
                         map_option (apfst ((@) (utf8_encode u))) (parse_chars (drop 4 r))))
             else
               (case unescape e of
                  None \<Rightarrow> None
                | Some x \<Rightarrow> map_option (apfst ((#) x)) (parse_chars r)))
      else map_option (apfst ((#) c)) (parse_chars cs))"

text \<open>A number literal, \<open>-?(0|[1-9][0-9]*)(\.[0-9]+)?([eE][+-]?[0-9]+)?\<close>, rounded to a
  double, and the input after it.\<close>

definition parse_number :: "string \<Rightarrow> (jsnum \<times> string) option" where
  "parse_number s =
     (let neg = str_startsWith s ''-'';
          s1 = (if neg then tl s else s)
      in if s1 = [] then None
         else if is_digit (hd s1) then
           (let ip = (if hd s1 = CHR ''0'' then ''0'' else takeWhile is_digit s1);
                s2 = drop (length ip) s1;
                has_frac = str_startsWith s2 ''.'';
                fp = (if has_frac then takeWhile is_digit (tl s2) else []);
                s3 = (if has_frac then drop (length fp) (tl s2) else s2);
                has_exp = (str_startsWith s3 ''e'' \<or> str_startsWith s3 ''E'');
                s4 = (if has_exp then tl s3 else s3);
                eneg = (has_exp \<and> str_startsWith s4 ''-'');
                s5 = (if has_exp \<and> (str_startsWith s4 ''-'' \<or> str_startsWith s4 ''+'')
                      then tl s4 else s4);
                ep = (if has_exp then takeWhile is_digit s5 else []);
                s6 = drop (length ep) s5;
                m = of_nat (digits_value ip) + of_nat (digits_value fp) / 10 ^ length fp;
                v = (if eneg then m / 10 ^ digits_value ep else m * 10 ^ digits_value ep)
            in if has_frac \<and> fp = [] then None
               else if has_exp \<and> ep = [] then None
               else Some (to_double neg v, s6))
         else None)"

text \<open>
  The recursive-descent parser for values, array elements and object members. Each
  result is the parsed value and the remaining input; \<open>None\<close> is a \<open>SyntaxError\<close>. The
  tests \<open>length r < length s\<close> before the recursive calls only make the recursion
  well-founded: \<open>parse_value_consumes\<close> below shows that they always hold.
\<close>

function parse_value :: "string \<Rightarrow> (jsval \<times> string) option"
  and parse_elements :: "string \<Rightarrow> (jsval list \<times> string) option"
  and parse_members :: "string \<Rightarrow> ((string \<times> jsval) list \<times> string) option"
where
  "parse_value s =
     (case skip_ws s of
        [] \<Rightarrow> None
      | c # r \<Rightarrow>
          if c = CHR ''{'' then
            (if str_startsWith (skip_ws r) ''}'' then Some (Obj [], tl (skip_ws r))
             else map_option (apfst Obj) (parse_members r))
          else if c = CHR ''['' then
            (if str_startsWith (skip_ws r) '']'' then Some (Arr [], tl (skip_ws r))
             else map_option (apfst Arr) (parse_elements r))
          else if c = CHR 0x22 then map_option (apfst Str) (parse_chars r)
          else if str_startsWith (c # r) ''true'' then Some (Bool True, drop 4 (c # r))
          else if str_startsWith (c # r) ''false'' then Some (Bool False, drop 5 (c # r))
          else if str_startsWith (c # r) ''null'' then Some (Null, drop 4 (c # r))
          else map_option (apfst Num) (parse_number (c # r)))"
| "parse_elements s =
     (case parse_value s of
        None \<Rightarrow> None
      | Some (v, r) \<Rightarrow>
          (case skip_ws r of
             [] \<Rightarrow> None
           | c # r' \<Rightarrow>
               if c = CHR '','' then
                 (if length r' < length s
                  then map_option (apfst ((#) v)) (parse_elements r') else None)
               else if c = CHR '']'' then Some ([v], r')
               else None))"
| "parse_members s =
     (case skip_ws s of
        [] \<Rightarrow> None
      | q # r \<Rightarrow>
          if q = CHR 0x22 then
            (case parse_chars r of
               None \<Rightarrow> None
             | Some (k, r1) \<Rightarrow>
                 (case skip_ws r1 of
                    [] \<Rightarrow> None
                  | c # r2 \<Rightarrow>
                      if c = CHR '':'' then
                        (if length r2 < length s then
                           (case parse_value r2 of
                              None \<Rightarrow> None
                            | Some (v, r3) \<Rightarrow>
                                (case skip_ws r3 of
                                   [] \<Rightarrow> None
                                 | d # r4 \<Rightarrow>
                                     if d = CHR '','' then
                                       (if length r4 < length s
                                        then map_option (apfst ((#) (k, v))) (parse_members r4)
                                        else None)
                                     else if d = CHR ''}'' then Some ([(k, v)], r4)
                                     else None))
                         else None)
                      else None))
          else None)"
  by pat_completeness auto

lemma length_skip_ws: "length (skip_ws s) \<le> length s"
  by (simp add: skip_ws_def length_dropWhile_le)

lemma skip_ws_Cons_length: "skip_ws s = c # r \<Longrightarrow> length r < length s"
  using length_skip_ws [of s] by simp

termination parse_value
  by (relation "measure (\<lambda>x. case x of
        Inl s \<Rightarrow> 3 * length s
      | Inr (Inl s) \<Rightarrow> 3 * length s + 1
      | Inr (Inr s) \<Rightarrow> 3 * length s + 1)")
     (auto dest: skip_ws_Cons_length)

declare parse_value.simps [simp del] parse_elements.simps [simp del] parse_members.simps [simp del]

text \<open>\<open>JSON.parse(text)\<close>: one value, with nothing but white space after it.\<close>

definition JSON_parse :: "string \<Rightarrow> exn + jsval" where
  "JSON_parse text =
     (case parse_value text of
        None \<Rightarrow> Inl SyntaxError
      | Some (v, r) \<Rightarrow> if skip_ws r = [] then Inr v else Inl SyntaxError)"

section \<open>Property reads and comparison\<close>

text \<open>
  \<open>decoded.name\<close> for the three names \<open>verifyToken\<close> reads, \<open>exp\<close>, \<open>sub\<close> and \<open>openid\<close>.
  Reading a property of \<open>null\<close> or \<open>undefined\<close> throws a \<open>TypeError\<close>. An object gives its own
  member (the last one of that name) and otherwise looks in the prototypes; of the three
  names only \<open>sub\<close> is found there, on \<open>String.prototype\<close>.
\<close>

fun get_prop :: "jsval \<Rightarrow> string \<Rightarrow> exn + jsval" where
  "get_prop Undefined name = Inl TypeError"
| "get_prop Null name = Inl TypeError"
| "get_prop (Obj members) name =
     (case map_of (rev members) name of Some v \<Rightarrow> Inr v | None \<Rightarrow> Inr Undefined)"
| "get_prop (Str s) name =
     (if name = ''sub'' then Inr (Function ''String.prototype.sub'') else Inr Undefined)"
| "get_prop v name = Inr Undefined"

text \<open>White space of \<open>StringToNumber\<close> (ECMA-262 \<open>StrWhiteSpaceChar\<close>), as UTF-8 bytes.\<close>

definition str_white_space :: "string list" where
  "str_white_space =
     [[CHR 0x09], [CHR 0x0A], [CHR 0x0B], [CHR 0x0C], [CHR 0x0D], [CHR 0x20],
      [CHR 0xC2, CHR 0xA0], [CHR 0xE1, CHR 0x9A, CHR 0x80],
      [CHR 0xE2, CHR 0x80, CHR 0x80], [CHR 0xE2, CHR 0x80, CHR 0x81],
      [CHR 0xE2, CHR 0x80, CHR 0x82], [CHR 0xE2, CHR 0x80, CHR 0x83],
      [CHR 0xE2, CHR 0x80, CHR 0x84], [CHR 0xE2, CHR 0x80, CHR 0x85],
      [CHR 0xE2, CHR 0x80, CHR 0x86], [CHR 0xE2, CHR 0x80, CHR 0x87],
      [CHR 0xE2, CHR 0x80, CHR 0x88], [CHR 0xE2, CHR 0x80, CHR 0x89],
      [CHR 0xE2, CHR 0x80, CHR 0x8A], [CHR 0xE2, CHR 0x80, CHR 0xA8],
      [CHR 0xE2, CHR 0x80, CHR 0xA9], [CHR 0xE2, CHR 0x80, CHR 0xAF],
      [CHR 0xE2, CHR 0x81, CHR 0x9F], [CHR 0xE3, CHR 0x80, CHR 0x80],
      [CHR 0xEF, CHR 0xBB, CHR 0xBF]]"

fun trim_start :: "string list \<Rightarrow> string \<Rightarrow> string" where
  "trim_start ws [] = []"
| "trim_start ws (c # cs) =
     (case find (str_startsWith (c # cs)) ws of
        None \<Rightarrow> c # cs
      | Some w \<Rightarrow> if w = [] then c # cs else trim_start ws (drop (length w) (c # cs)))"

definition trim :: "string \<Rightarrow> string" where
  "trim s =
     rev (trim_start (map rev str_white_space) (rev (trim_start str_white_space s)))"

definition radix_value :: "nat \<Rightarrow> string \<Rightarrow> jsnum" where
  "radix_value b ds =
     (if ds \<noteq> [] \<and> list_all (\<lambda>c. case hex_digit c of None \<Rightarrow> False | Some d \<Rightarrow> d < b) ds
      then to_double False (of_nat (foldl (\<lambda>a c. b * a + the (hex_digit c)) 0 ds))
      else NaN)"

text \<open>An unsigned \<open>StrDecimalLiteral\<close> other than \<open>Infinity\<close>: digits with an optional
  fraction and exponent, where the digits before or after the point may be missing but
  not both.\<close>

definition decimal_value :: "string \<Rightarrow> rat option" where
  "decimal_value s =
     (let ip = takeWhile is_digit s;
          s2 = drop (length ip) s;
          has_point = str_startsWith s2 ''.'';
          fp = (if has_point then takeWhile is_digit (tl s2) else []);
          s3 = (if has_point then drop (length fp) (tl s2) else s2);
          has_exp = (str_startsWith s3 ''e'' \<or> str_startsWith s3 ''E'');
          s4 = (if has_exp then tl s3 else s3);
          eneg = (has_exp \<and> str_startsWith s4 ''-'');
          s5 = (if has_exp \<and> (str_startsWith s4 ''-'' \<or> str_startsWith s4 ''+'')
                then tl s4 else s4);
          ep = (if has_exp then takeWhile is_digit s5 else []);
          s6 = drop (length ep) s5;
          m = of_nat (digits_value ip) + of_nat (digits_value fp) / 10 ^ length fp
      in if ip = [] \<and> fp = [] then None
         else if has_exp \<and> ep = [] then None
         else if s6 \<noteq> [] then None
         else Some (if eneg then m / 10 ^ digits_value ep else m * 10 ^ digits_value ep))"

text \<open>\<open>StringToNumber\<close> (ECMA-262 7.1.4.1.1): the empty or blank string is \<open>0\<close>; a binary,
  octal or hexadecimal literal has no sign; anything outside the grammar is \<open>NaN\<close>; the
  value of a literal is rounded to a double.\<close>

definition StringToNumber :: "string \<Rightarrow> jsnum" where
  "StringToNumber s =
     (let t = trim s in
      if t = [] then Finite 0
      else if str_startsWith t ''0x'' \<or> str_startsWith t ''0X'' then radix_value 16 (drop 2 t)
      else if str_startsWith t ''0o'' \<or> str_startsWith t ''0O'' then radix_value 8 (drop 2 t)
      else if str_startsWith t ''0b'' \<or> str_startsWith t ''0B'' then radix_value 2 (drop 2 t)
      else
        (let neg = str_startsWith t ''-'';
             u = (if neg \<or> str_startsWith t ''+'' then tl t else t)
         in if u = ''Infinity'' then (if neg then NegInfinity else PosInfinity)
            else (case decimal_value u of
                    None \<Rightarrow> NaN
                  | Some v \<Rightarrow> to_double neg v)))"

text \<open>
  \<open>ToNumber\<close> of a value that \<open>JSON.parse\<close> or a property read produced. An object is
  converted through \<open>valueOf\<close> and \<open>toString\<close>: a plain object gives \<open>"[object Object]"\<close>,
  hence \<open>NaN\<close>, unless it has a member named \<open>toString\<close>, which is not callable, so that no
  primitive is found and a \<open>TypeError\<close> is thrown. An array is joined with commas first:
  \<open>join_number\<close> is \<open>ToNumber\<close> of the joined string, where \<open>null\<close> elements are empty, a
  number reads back as itself (minus zero as zero) and any comma makes the string \<open>NaN\<close>; \<open>join_throws\<close> tells
  whether converting some element to a string throws.
\<close>

fun has_member :: "string \<Rightarrow> (string \<times> jsval) list \<Rightarrow> bool" where
  "has_member name [] = False"
| "has_member name ((k, v) # ms) = (k = name \<or> has_member name ms)"

fun elem_throws :: "jsval \<Rightarrow> bool" and join_throws :: "jsval list \<Rightarrow> bool" where
  "elem_throws (Arr vs) = join_throws vs"
| "elem_throws (Obj ms) = has_member ''toString'' ms"
| "elem_throws v = False"
| "join_throws [] = False"
| "join_throws (v # vs) = (elem_throws v \<or> join_throws vs)"

fun ToNumber :: "jsval \<Rightarrow> exn + jsnum" and join_number :: "jsval list \<Rightarrow> exn + jsnum" where
  "ToNumber Undefined = Inr NaN"
| "ToNumber Null = Inr (Finite 0)"
| "ToNumber (Bool b) = Inr (Finite (if b then 1 else 0))"
| "ToNumber (Num n) = Inr n"
| "ToNumber (Str s) = Inr (StringToNumber s)"
| "ToNumber (Arr vs) = join_number vs"
| "ToNumber (Obj ms) = (if has_member ''toString'' ms then Inl TypeError else Inr NaN)"
| "ToNumber (Function f) = Inr NaN"
| "join_number [] = Inr (Finite 0)"
| "join_number [v] =
     (case v of
        Undefined \<Rightarrow> Inr (Finite 0)
      | Null \<Rightarrow> Inr (Finite 0)
      | Bool b \<Rightarrow> Inr NaN
      | Num n \<Rightarrow> Inr (if n = NegZero then Finite 0 else n)
      | _ \<Rightarrow> ToNumber v)"
| "join_number (v # w # vs) = (if join_throws (v # w # vs) then Inl TypeError else Inr NaN)"

text \<open>\<open>x < y\<close> on numbers: false as soon as one side is \<open>NaN\<close>; minus zero compares as
  zero.\<close>

fun num_rank :: "jsnum \<Rightarrow> int" where
  "num_rank NegInfinity = - 1"
| "num_rank PosInfinity = 1"
| "num_rank n = 0"

fun num_magnitude :: "jsnum \<Rightarrow> rat" where
  "num_magnitude (Finite q) = q"
| "num_magnitude n = 0"

fun num_less :: "jsnum \<Rightarrow> jsnum \<Rightarrow> bool" where
  "num_less NaN y = False"
| "num_less x NaN = False"
| "num_less x y =
     (num_rank x < num_rank y \<or>
      (num_rank x = num_rank y \<and> num_magnitude x < num_magnitude y))"

text \<open>\<open>v < Date.now()\<close>: the right operand is a number, so the left one is converted with
  \<open>ToNumber\<close>; \<open>now\<close> is the clock in milliseconds, an integer of at most
  \<open>8640000000000000\<close> in absolute value and so a double.\<close>

definition less_than_now :: "jsval \<Rightarrow> int \<Rightarrow> exn + bool" where
  "less_than_now v now =
     (case ToNumber v of
        Inl e \<Rightarrow> Inl e
      | Inr n \<Rightarrow> Inr (num_less n (Finite (of_int now))))"

section \<open>Verification\<close>

text \<open>
  The payload type of \<open>src/lib/auth.ts\<close>. The fields are declared \<open>string\<close>, but
  \<open>verifyToken\<close> fills them with whatever \<open>decoded.sub\<close> and \<open>decoded.openid\<close> are, so they
  hold any value here.
\<close>

record TokenPayload =
  userId :: jsval
  openid :: jsval

definition bind :: "exn + 'a \<Rightarrow> ('a \<Rightarrow> exn + 'b) \<Rightarrow> exn + 'b" where
  "bind m f = (case m of Inl e \<Rightarrow> Inl e | Inr x \<Rightarrow> f x)"

definition fromBase64Url :: "string \<Rightarrow> string" where
  "fromBase64Url str =
     (let base64 = replace_all (CHR ''_'') (CHR ''/'') (replace_all (CHR ''-'') (CHR ''+'') str);
          padding = str_length base64 mod 4
      in base64 @ replicate (if padding = 0 then 0 else 4 - padding) (CHR ''=''))"

text \<open>The library calls of \<open>verifyToken\<close> that a run has made, in order.\<close>

datatype step = CreateHmac string | DecodePayload string

text \<open>
  The \<open>try\<close> block of \<open>verifyToken\<close> (\<open>src/lib/auth.ts\<close>, lines 19-51) with the secret and
  the reading of \<open>Date.now()\<close> as arguments. The result is what the block returns
  (\<open>None\<close> for \<open>null\<close>) or the exception it throws (\<open>Inl\<close>), together with the library calls
  made.
\<close>

definition verifyToken_try ::
  "string \<Rightarrow> int \<Rightarrow> string \<Rightarrow> (exn + TokenPayload option) \<times> step list" where
  "verifyToken_try secret now token =
     (let parts = str_split (CHR ''.'') token in
      if length parts \<noteq> 3 then (Inr None, [])
      else
        (let header = parts ! 0; payload = parts ! 1; signature = parts ! 2;
             expectedSignature =
               remove_all (CHR ''='') (replace_all (CHR ''/'') (CHR ''_'')
                 (replace_all (CHR ''+'') (CHR ''-'')
                    (base64_encode (hmac_sha256 secret (header @ ''.'' @ payload)))))
         in if signature \<noteq> expectedSignature
            then (Inr None, [CreateHmac (header @ ''.'' @ payload)])
            else
              (let decodedPayload = fromBase64Url payload
               in (bind (JSON_parse (Buffer_toString (base64_decode decodedPayload)))
                     (\<lambda>decoded.
                        bind (get_prop decoded ''exp'') (\<lambda>e.
                        bind (less_than_now e now) (\<lambda>expired.
                          if expired then Inr None
                          else
                            bind (get_prop decoded ''sub'') (\<lambda>sub.
                            bind (get_prop decoded ''openid'') (\<lambda>oid.
                              Inr (Some \<lparr>userId = sub, openid = oid\<rparr>)))))),
                   [CreateHmac (header @ ''.'' @ payload), DecodePayload decodedPayload]))))"

text \<open>
  \<open>verifyToken\<close> as its callers see it: the \<open>catch\<close> clause turns every exception of the
  block into \<open>null\<close>. \<open>Inl\<close> would be an exception that reaches the caller.
\<close>

definition verifyToken :: "string \<Rightarrow> int \<Rightarrow> string \<Rightarrow> exn + TokenPayload option" where
  "verifyToken secret now token =
     (case fst (verifyToken_try secret now token) of
        Inl e \<Rightarrow> Inr None
      | Inr r \<Rightarrow> Inr r)"



text \<open>
  The inputs the statements below are about. A string is the UTF-8 encoding of a text
  (Unicode, table 3-7: no overlong forms, no surrogates, nothing above U+10FFFF); it is
  ASCII if every byte is below 128; a reading of the clock is a time value of ECMA-262
  (21.4.1.1), at most \<open>8.64 * 10^15\<close> milliseconds from the epoch.
\<close>

fun in_ranges :: "(nat \<times> nat) list \<Rightarrow> string \<Rightarrow> bool" where
  "in_ranges [] r = True"
| "in_ranges ((lo, hi) # rs) [] = False"
| "in_ranges ((lo, hi) # rs) (c # r) = (lo \<le> ord c \<and> ord c \<le> hi \<and> in_ranges rs r)"

fun utf8_valid :: "string \<Rightarrow> bool" where
  "utf8_valid [] = True"
| "utf8_valid (a # r) =
     (let n = ord a in
      if n < 128 then utf8_valid r
      else if 194 \<le> n \<and> n \<le> 223 then
        in_ranges [(128, 191)] r \<and> utf8_valid (drop 1 r)
      else if 224 \<le> n \<and> n \<le> 239 then
        in_ranges [(if n = 224 then 160 else 128, if n = 237 then 159 else 191), (128, 191)] r
        \<and> utf8_valid (drop 2 r)
      else if 240 \<le> n \<and> n \<le> 244 then
        in_ranges [(if n = 240 then 144 else 128, if n = 244 then 143 else 191), (128, 191),
                   (128, 191)] r
        \<and> utf8_valid (drop 3 r)
      else False)"

definition ascii :: "string \<Rightarrow> bool" where
  "ascii s = list_all (\<lambda>c. ord c < 128) s"

definition time_value :: "int \<Rightarrow> bool" where
  "time_value t = (- 8640000000000000 \<le> t \<and> t \<le> 8640000000000000)"

text \<open>The signature \<open>verifyToken\<close> expects for a message, named for the statements
  below: the digest in Base64 with \<open>+\<close>, \<open>/\<close> and \<open>=\<close> treated as in lines 33-39.\<close>

definition url_signature :: "string \<Rightarrow> string \<Rightarrow> string" where
  "url_signature secret msg =
     remove_all (CHR ''='') (replace_all (CHR ''/'') (CHR ''_'')
       (replace_all (CHR ''+'') (CHR ''-'') (base64_encode (hmac_sha256 secret msg))))"

section \<open>The admission gateway\<close>

text \<open>
  The request as far as the gateway and the route read it: the \<open>User-Agent\<close> header, the
  path, the \<open>auth_token\<close> cookie and the \<open>Authorization\<close> header.
\<close>

record request =
  user_agent :: "string option"
  pathname :: string
  auth_token_cookie :: "string option"
  authorization :: "string option"

text \<open>
  The result of \<open>checkRateLimit\<close> in \<open>@/lib/rate-limit\<close>, which is not among the sources:
  the fields are those the middleware reads, the three counters taken as integers.
\<close>

record limit_result =
  success :: bool
  limit :: int
  remaining :: int
  resetTime :: int
  error :: "string option"

text \<open>The fixed messages of the JSON bodies (Chinese text in the source), by meaning.\<close>

datatype message =
    WeChatOnly | TooFrequent | Unavailable | NotLoggedIn | LoginExpired | GenerationFailed
  | Message string

datatype body = NoBody | ErrorBody message | RateLimitBody message int int

text \<open>
  A response: \<open>NextResponse.next()\<close> forwards the request to the route and has status 200,
  \<open>NextResponse.json(body, {status})\<close> answers it. Both come with one header of their own.
\<close>

record response =
  status :: nat
  forwarded :: bool
  headers :: "(string \<times> string) list"
  body :: body

definition NextResponse_next :: response where
  "NextResponse_next =
     \<lparr>status = 200, forwarded = True, headers = [(''x-middleware-next'', ''1'')], body = NoBody\<rparr>"

definition NextResponse_json :: "body \<Rightarrow> nat \<Rightarrow> response" where
  "NextResponse_json b st =
     \<lparr>status = st, forwarded = False, headers = [(''content-type'', ''application/json'')],
      body = b\<rparr>"

text \<open>\<open>response.headers.set(name, value)\<close> replaces the header of that name.\<close>

definition headers_set :: "string \<Rightarrow> string \<Rightarrow> response \<Rightarrow> response" where
  "headers_set name v r = r\<lparr>headers := AList.update name v (headers r)\<rparr>"

definition headers_get :: "response \<Rightarrow> string \<Rightarrow> string option" where
  "headers_get r name = map_of (headers r) name"

definition isWeChatMiniProgram :: "string \<Rightarrow> bool" where
  "isWeChatMiniProgram userAgent = str_includes userAgent ''MicroMessenger''"

text \<open>The calls the middleware makes into \<open>@/lib/rate-limit\<close>, in order.\<close>

datatype limiter_call = GetClientIP | CheckRateLimit string

text \<open>
  \<open>middleware\<close> (\<open>src/unnamed/part_003\<close>, lines 272-331). The two functions of
  \<open>@/lib/rate-limit\<close> are arguments: each returns its value or throws (\<open>Inl\<close>), and a
  failed round trip to the store inside \<open>checkRateLimit\<close> is such a throw. The \<open>catch\<close> clause
  covers both calls. The result is the response and the calls made.
\<close>

definition middleware ::
  "(request \<Rightarrow> exn + string) \<Rightarrow> (string \<Rightarrow> exn + limit_result) \<Rightarrow> request \<Rightarrow>
     response \<times> limiter_call list" where
  "middleware getClientIP checkRateLimit req =
     (let userAgent = (case user_agent req of None \<Rightarrow> [] | Some ua \<Rightarrow> ua) in
      if \<not> isWeChatMiniProgram userAgent then (NextResponse_json (ErrorBody WeChatOnly) 403, [])
      else if \<not> str_startsWith (pathname req) ''/api/blessing'' then (NextResponse_next, [])
      else
        (case getClientIP req of
           Inl e \<Rightarrow> (NextResponse_json (ErrorBody Unavailable) 503, [GetClientIP])
         | Inr clientIP \<Rightarrow>
             (case checkRateLimit clientIP of
                Inl e \<Rightarrow>
                  (NextResponse_json (ErrorBody Unavailable) 503,
                   [GetClientIP, CheckRateLimit clientIP])
              | Inr limitResult \<Rightarrow>
                  if \<not> success limitResult then
                    (headers_set ''X-RateLimit-Reset'' (show_int (resetTime limitResult))
                      (headers_set ''X-RateLimit-Remaining'' (show_int (remaining limitResult))
                        (headers_set ''X-RateLimit-Limit'' (show_int (limit limitResult))
                          (NextResponse_json
                             (RateLimitBody
                                (case error limitResult of
                                   None \<Rightarrow> TooFrequent
                                 | Some m \<Rightarrow> if m = [] then TooFrequent else Message m)
                                (resetTime limitResult) (limit limitResult))
                             429))),
                     [GetClientIP, CheckRateLimit clientIP])
                  else
                    (headers_set ''X-RateLimit-Reset'' (show_int (resetTime limitResult))
                      (headers_set ''X-RateLimit-Remaining'' (show_int (remaining limitResult))
                        (headers_set ''X-RateLimit-Limit'' (show_int (limit limitResult))
                          NextResponse_next)),
                     [GetClientIP, CheckRateLimit clientIP]))))"

text \<open>\<open>str.replace(pattern, '')\<close> with a string pattern: the first occurrence is removed.\<close>

fun remove_first :: "string \<Rightarrow> string \<Rightarrow> string" where
  "remove_first pat [] = []"
| "remove_first pat (c # cs) =
     (if str_startsWith (c # cs) pat then drop (length pat) (c # cs)
      else c # remove_first pat cs)"

text \<open>
  The admission part of \<open>POST\<close> in \<open>src/app/api/blessing/route.ts\<close> (lines 38-67). What
  follows the token check (parsing and validating the body, generation, history, and the
  \<open>catch\<close> clause around them) is the argument \<open>handler\<close>. The result is the response and
  the tokens passed to \<open>verifyToken\<close>. The \<open>catch\<close> clause answers an exception with status
  500; \<open>verifyToken\<close> has its own \<open>catch\<close>, so that branch is only there for the types.
\<close>

definition blessing_POST ::
  "string \<Rightarrow> int \<Rightarrow> (TokenPayload \<Rightarrow> response) \<Rightarrow> request \<Rightarrow> response \<times> string list" where
  "blessing_POST secret now handler req =
     (let userAgent = (case user_agent req of None \<Rightarrow> [] | Some ua \<Rightarrow> ua) in
      if \<not> str_includes userAgent ''MicroMessenger''
      then (NextResponse_json (ErrorBody WeChatOnly) 403, [])
      else
        (let bearer = (case authorization req of
                         None \<Rightarrow> []
                       | Some a \<Rightarrow> remove_first ''Bearer '' a);
             token = (case auth_token_cookie req of
                        None \<Rightarrow> bearer
                      | Some v \<Rightarrow> if v = [] then bearer else v)
         in if token = [] then (NextResponse_json (ErrorBody NotLoggedIn) 401, [])
            else
              (case verifyToken secret now token of
                 Inl e \<Rightarrow> (NextResponse_json (ErrorBody GenerationFailed) 500, [token])
               | Inr None \<Rightarrow> (NextResponse_json (ErrorBody LoginExpired) 401, [token])
               | Inr (Some decoded) \<Rightarrow> (handler decoded, [token]))))"

text \<open>
  Modelled from the spec: \<open>checkRateLimit\<close> of \<open>@/lib/rate-limit\<close>, which is not among the
  sources (spec 4.4, Rate Limiter). The window is \<open>W\<close> (positive), the ceiling \<open>N\<close>; \<open>incr\<close> is the
  store's atomic increment-with-expiry, which returns the count after the increment or
  fails when the store is unreachable. The limiter passes that failure on instead of
  allowing or denying.
\<close>

definition spec_checkRateLimit ::
  "int \<Rightarrow> int \<Rightarrow> int \<Rightarrow> (string \<Rightarrow> exn + nat) \<Rightarrow> string \<Rightarrow> exn + limit_result" where
  "spec_checkRateLimit W N now incr address =
     (let bucket = now div W;
          key = address @ '':'' @ show_int bucket
      in case incr key of
           Inl e \<Rightarrow> Inl e
         | Inr count \<Rightarrow>
             Inr \<lparr>success = (int count \<le> N), limit = N, remaining = max 0 (N - int count),
                  resetTime = (bucket + 1) * W, error = None\<rparr>)"

section \<open>Facts about the library model\<close>

lemma b64_char_in_alphabet: "b64_char n \<in> set b64_alphabet"
  unfolding b64_char_def by (rule nth_mem) (simp add: b64_alphabet_def)

lemma b64_char_not_dot: "b64_char n \<noteq> CHR ''.''"
  using b64_char_in_alphabet [of n] by (auto simp: b64_alphabet_def)

lemma base64_encode_no_dot: "CHR ''.'' \<notin> set (base64_encode s)"
  by (induction s rule: base64_encode.induct)
     (simp_all add: Let_def b64_char_not_dot b64_char_not_dot [symmetric])

text \<open>Standard Base64 pads every input whose length is not a multiple of three.\<close>

lemma base64_encode_padded:
  "length s mod 3 \<noteq> 0 \<Longrightarrow> base64_encode s \<noteq> [] \<and> last (base64_encode s) = CHR ''=''"
  by (induction s rule: base64_encode.induct) (simp_all add: Let_def)

lemma sha256_length: "length (sha256 m) = 32"
  by (simp add: sha256_def Let_def be32_def)

lemma hmac_sha256_length: "length (hmac_sha256 key msg) = 32"
  by (simp add: hmac_sha256_def Let_def sha256_length)

lemma signature_padded:
  "base64_encode (hmac_sha256 key msg) \<noteq> [] \<and>
   last (base64_encode (hmac_sha256 key msg)) = CHR ''=''"
  by (rule base64_encode_padded) (simp add: hmac_sha256_length)

lemma str_split_no_sep: "d \<notin> set a \<Longrightarrow> str_split d a = [a]"
  by (induction a) (auto simp: Let_def)

lemma str_split_append: "d \<notin> set a \<Longrightarrow> str_split d (a @ d # rest) = a # str_split d rest"
  by (induction a) (auto simp: Let_def)

lemma str_split3:
  "d \<notin> set a \<Longrightarrow> d \<notin> set b \<Longrightarrow> d \<notin> set c \<Longrightarrow> str_split d (a @ d # b @ d # c) = [a, b, c]"
  by (simp add: str_split_append str_split_no_sep)

lemma url_safe_no_dot:
  "CHR ''.'' \<notin> set (remove_all (CHR ''='') (replace_all (CHR ''/'') (CHR ''_'')
      (replace_all (CHR ''+'') (CHR ''-'') (base64_encode s))))"
  using base64_encode_no_dot [of s] by (auto simp: remove_all_def replace_all_def)

lemma url_safe_no_pad:
  "CHR ''='' \<notin> set (remove_all (CHR ''='') s)"
  by (simp add: remove_all_def)

text \<open>Every successful parse consumes input.\<close>

lemma parse_chars_consumes: "parse_chars s = Some (x, r) \<Longrightarrow> length r < length s"
proof (induction s arbitrary: x r rule: parse_chars.induct)
  case 1
  then show ?case by simp
next
  case (2 c cs)
  show ?case
    using "2.prems" "2.IH"
    by (auto split: if_splits list.splits option.splits) fastforce+
qed

lemma takeWhile_digit_nonempty: "s \<noteq> [] \<Longrightarrow> is_digit (hd s) \<Longrightarrow> takeWhile is_digit s \<noteq> []"
  by (cases s) auto

lemma parse_number_consumes: "parse_number s = Some (v, r) \<Longrightarrow> length r < length s"
proof -
  assume a: "parse_number s = Some (v, r)"
  define s1 where "s1 = (if str_startsWith s ''-'' then tl s else s)"
  define ip where "ip = (if hd s1 = CHR ''0'' then ''0'' else takeWhile is_digit s1)"
  have s1: "s1 \<noteq> []" "is_digit (hd s1)"
    using a unfolding parse_number_def s1_def Let_def by (auto split: if_splits)
  have "ip \<noteq> []"
    unfolding ip_def using s1 by (auto simp: takeWhile_digit_nonempty)
  then have ip: "0 < length ip" by simp
  have "length s1 \<le> length s" unfolding s1_def by simp
  moreover have "length r \<le> length (drop (length ip) s1)"
    using a s1 unfolding parse_number_def Let_def s1_def [symmetric] ip_def [symmetric]
    by (auto split: if_splits simp: le_diff_conv)
  moreover have "length (drop (length ip) s1) < length s1"
    using ip s1(1) by (cases s1) simp_all
  ultimately show ?thesis by linarith
qed

lemma parse_consumes:
  "(parse_value s = Some (v, r) \<longrightarrow> length r < length s) \<and>
   (parse_elements s = Some (vs, r) \<longrightarrow> length r < length s) \<and>
   (parse_members s = Some (ms, r) \<longrightarrow> length r < length s)"
proof (induction s arbitrary: v vs ms r rule: length_induct)
  case (1 s)
  have IH: "\<And>t w ws ns q. length t < length s \<Longrightarrow>
      (parse_value t = Some (w, q) \<longrightarrow> length q < length t) \<and>
      (parse_elements t = Some (ws, q) \<longrightarrow> length q < length t) \<and>
      (parse_members t = Some (ns, q) \<longrightarrow> length q < length t)"
    using 1 by blast
  have skip: "\<And>t c q. skip_ws t = c # q \<Longrightarrow> length q < length t"
    by (rule skip_ws_Cons_length)
  have pv: "length r < length s" if a: "parse_value s = Some (v, r)" for v r
  proof (cases "skip_ws s")
    case Nil
    then show ?thesis using a by (simp add: parse_value.simps)
  next
    case (Cons c q)
    have q: "length q < length s" using skip [OF Cons] .
    have tl: "length (tl (skip_ws q)) < length s"
      using length_skip_ws [of q] q by simp
    have dr: "\<And>n. 0 < n \<Longrightarrow> length (drop n (c # q)) < length s"
      using q by (simp; arith)
    show ?thesis
      using a Cons q tl IH [OF q] dr [of 4] dr [of 5] parse_chars_consumes [of q]
        parse_number_consumes [of "c # q"] length_skip_ws [of s]
      by (auto simp: parse_value.simps split: if_splits) fastforce+
  qed
  have pe: "length r < length s" if a: "parse_elements s = Some (vs, r)" for vs r
  proof -
    obtain w q where w: "parse_value s = Some (w, q)"
      using a by (auto simp: parse_elements.simps split: option.splits)
    have q: "length q < length s" using pv [OF w] .
    show ?thesis
    proof (cases "skip_ws q")
      case Nil
      then show ?thesis using a w by (simp add: parse_elements.simps)
    next
      case (Cons c q')
      have q': "length q' < length s" using skip [OF Cons] q by simp
      show ?thesis
        using a w Cons q' IH [OF q']
        by (auto simp: parse_elements.simps split: if_splits) fastforce
    qed
  qed
  have pm: "length r < length s" if a: "parse_members s = Some (ms, r)" for ms r
  proof (cases "skip_ws s")
    case Nil
    then show ?thesis using a by (simp add: parse_members.simps)
  next
    case (Cons c q)
    have q: "length q < length s" using skip [OF Cons] .
    obtain k q1 where k: "parse_chars q = Some (k, q1)" and c: "c = CHR 0x22"
      using a Cons by (auto simp: parse_members.simps split: if_splits option.splits)
    have q1: "length q1 < length s" using parse_chars_consumes [OF k] q by simp
    obtain q2 where q2: "skip_ws q1 = CHR '':'' # q2"
      using a Cons k c by (auto simp: parse_members.simps split: if_splits list.splits)
    have lq2: "length q2 < length s" using skip [OF q2] q1 by simp
    obtain w q3 where w: "parse_value q2 = Some (w, q3)"
      using a Cons k c q2 lq2 by (auto simp: parse_members.simps split: option.splits)
    have q3: "length q3 < length s" using IH [OF lq2] w lq2 by fastforce
    show ?thesis
    proof (cases "skip_ws q3")
      case Nil
      then show ?thesis using a Cons k c q2 lq2 w by (simp add: parse_members.simps)
    next
      case (Cons d q4)
      have q4: "length q4 < length s" using skip [OF Cons] q3 by simp
      show ?thesis
        using a \<open>skip_ws s = c # q\<close> k c q2 lq2 w Cons q4 IH [OF q4]
        by (auto simp: parse_members.simps split: if_splits) fastforce
    qed
  qed
  show ?case using pv pe pm by blast
qed

text \<open>So the tests that guard the recursive calls of the parser never fail: whenever one
  is reached, the input it compares is shorter.\<close>

lemma parse_value_consumes: "parse_value s = Some (v, r) \<Longrightarrow> length r < length s"
  using parse_consumes by blast

subsection \<open>Base64 decoding inverts encoding\<close>

lemma chr_char_of: "chr n = char_of n"
  by (simp add: chr_def char_of_def bit_iff_odd)

lemma chr_ord: "chr (ord c) = c"
  by (simp add: chr_char_of ord_def)

lemma ord_less_256: "ord c < 256"
  by (simp add: ord_def)

lemma div_add_multiple:
  fixes k m d e :: nat
  assumes "0 < d" and "256 = e * d"
  shows "(k * 256 + m) div d = k * e + m div d"
proof -
  have "k * 256 + m = m + (k * e) * d" using assms(2) by simp
  then show ?thesis using assms(1) by (metis div_mult_self1 add.commute less_numeral_extra(3))
qed

lemma odd_add_256: "odd (k * 256 + m) = odd (m :: nat)"
  by simp

lemma chr_add_256: "chr (k * 256 + m) = chr m"
  unfolding chr_def
  by (simp add: div_add_multiple [where e = 128] div_add_multiple [where e = 64]
      div_add_multiple [where e = 32] div_add_multiple [where e = 16]
      div_add_multiple [where e = 8] div_add_multiple [where e = 4]
      div_add_multiple [where e = 2])

text \<open>ASCII strings: one code unit per byte.\<close>

lemma code_units_ascii: "ascii s \<Longrightarrow> code_units s = map ord s"
  by (induction s) (simp_all add: ascii_def Let_def)

lemma low_bytes_ascii: "ascii s \<Longrightarrow> low_bytes s = s"
  by (simp add: low_bytes_def code_units_ascii chr_ord comp_def)

lemma str_length_ascii: "ascii s \<Longrightarrow> str_length s = length s"
  by (simp add: str_length_def code_units_ascii)

lemma ascii_append: "ascii (a @ b) = (ascii a \<and> ascii b)"
  by (simp add: ascii_def)

lemma b64_alphabet_chars:
  "\<forall>c \<in> set b64_alphabet. ord c < 128 \<and> c \<noteq> CHR ''='' \<and> c \<noteq> CHR ''-'' \<and> c \<noteq> CHR ''_''"
  by (simp add: b64_alphabet_def ord_def)

lemma b64_char_ascii: "ord (b64_char n) < 128"
  using b64_char_in_alphabet b64_alphabet_chars by blast


lemma b64_char_not_minus: "b64_char n \<noteq> CHR ''-''"
  using b64_char_in_alphabet b64_alphabet_chars by blast

lemma b64_char_not_underscore: "b64_char n \<noteq> CHR ''_''"
  using b64_char_in_alphabet b64_alphabet_chars by blast

lemma ord_pad: "ord (CHR ''='') < 128"
  by (simp add: ord_def)

lemma base64_encode_ascii: "ascii (base64_encode s)"
  by (induction s rule: base64_encode.induct)
     (simp_all add: ascii_def Let_def b64_char_ascii ord_pad)

lemma base64_encode_standard:
  "CHR ''-'' \<notin> set (base64_encode s) \<and> CHR ''_'' \<notin> set (base64_encode s)"
  by (induction s rule: base64_encode.induct)
     (simp_all add: Let_def b64_char_not_minus [symmetric] b64_char_not_underscore [symmetric])

text \<open>Decoding the sextets of an encoding gives the bytes back.\<close>

lemma unbase64_b64_all:
  "list_all (\<lambda>n. unbase64 (b64_alphabet ! n) = Some n) [0..<64]"
  by (simp add: upt_rec b64_alphabet_def unbase64_def ord_def)

lemma unbase64_b64_char: "unbase64 (b64_char n) = Some (n mod 64)"
  using unbase64_b64_all by (simp add: list_all_iff b64_char_def)

lemma unbase64_pad: "unbase64 (CHR ''='') = None"
  by (simp add: unbase64_def ord_def)

lemma sextets_value:
  fixes n :: nat
  assumes "n < 16777216"
  shows "(n div 262144 mod 64) * 262144 + (n div 4096 mod 64) * 4096 +
         (n div 64 mod 64) * 64 + n mod 64 = n"
proof -
  define q where "q = n div 64"
  define p where "p = q div 64"
  define r where "r = p div 64"
  define a where "a = n mod 64"
  define b where "b = q mod 64"
  define c where "c = p mod 64"
  have n: "n = q * 64 + a" unfolding q_def a_def by simp
  have q: "q = p * 64 + b" unfolding p_def b_def by simp
  have p: "p = r * 64 + c" unfolding r_def c_def by simp
  have d1: "n div 4096 = p" unfolding p_def q_def by (simp add: div_mult2_eq [symmetric])
  have d2: "n div 262144 = r"
    unfolding r_def p_def q_def by (simp add: div_mult2_eq [symmetric])
  have "r < 64" unfolding d2 [symmetric] using assms by (simp add: less_mult_imp_div_less)
  then have r: "r mod 64 = r" by simp
  show ?thesis
    unfolding d1 d2 q_def [symmetric] r a_def [symmetric] b_def [symmetric] c_def [symmetric]
    using n q p by linarith
qed

lemma decode_group:
  fixes x y z n m :: nat
  assumes "x < 256" and "y < 256" and "z < 256"
      and n: "n = x * 65536 + y * 256 + z"
      and m: "m = (n div 262144 mod 64) * 262144 + (n div 4096 mod 64) * 4096 +
                  (n div 64 mod 64) * 64 + n mod 64"
  shows "chr (m div 65536) = chr x" and "chr (m div 256) = chr y" and "chr m = chr z"
proof -
  have "n < 16777216" using assms(1-3) n by simp
  then have mn: "m = n" unfolding m by (rule sextets_value)
  have "n = (y * 256 + z) + x * 65536" using n by simp
  moreover have "y * 256 + z < 65536" using assms(2,3) by simp
  ultimately have "n div 65536 = x" by simp
  then show "chr (m div 65536) = chr x" using mn by simp
  have "n = z + (x * 256 + y) * 256" using n by simp
  then have "n div 256 = x * 256 + y" using assms(3) by simp
  then have "chr (n div 256) = chr y" by (simp only: chr_add_256)
  then show "chr (m div 256) = chr y" using mn by simp
  have "n = (x * 256 + y) * 256 + z" using n by simp
  then have "chr n = chr z" by (simp only: chr_add_256)
  then show "chr m = chr z" using mn by simp
qed

lemma map_filter_append:
  "List.map_filter f (xs @ ys) = List.map_filter f xs @ List.map_filter f ys"
  by (simp add: List.map_filter_def)

lemma decode_three:
  "decode_sextets (List.map_filter unbase64 (base64_encode (a # b # c # rest))) =
     a # b # c # decode_sextets (List.map_filter unbase64 (base64_encode rest))"
proof -
  define n where "n = ord a * 65536 + ord b * 256 + ord c"
  define m where "m = (n div 262144 mod 64) * 262144 + (n div 4096 mod 64) * 4096 +
                  (n div 64 mod 64) * 64 + n mod 64"
  have enc: "base64_encode (a # b # c # rest) =
      [b64_char (n div 262144), b64_char (n div 4096), b64_char (n div 64), b64_char n]
      @ base64_encode rest"
    by (simp add: n_def Let_def)
  have sx: "List.map_filter unbase64 (base64_encode (a # b # c # rest)) =
      (n div 262144 mod 64) # (n div 4096 mod 64) # (n div 64 mod 64) # (n mod 64) #
      List.map_filter unbase64 (base64_encode rest)"
    unfolding enc map_filter_append
    by (simp add: List.map_filter_simps unbase64_b64_char)
  have "decode_sextets (List.map_filter unbase64 (base64_encode (a # b # c # rest))) =
      [chr (m div 65536), chr (m div 256), chr m] @
      decode_sextets (List.map_filter unbase64 (base64_encode rest))"
    unfolding sx m_def by (simp only: decode_sextets.simps Let_def)
  then show ?thesis
    using decode_group [OF ord_less_256 ord_less_256 ord_less_256 n_def m_def]
    by (simp add: chr_ord)
qed

lemma decode_two:
  "decode_sextets (List.map_filter unbase64 (base64_encode [a, b])) = [a, b]"
proof -
  define n where "n = ord a * 65536 + ord b * 256 + 0"
  define m where "m = (n div 262144 mod 64) * 262144 + (n div 4096 mod 64) * 4096 +
                  (n div 64 mod 64) * 64 + n mod 64"
  have n0: "n mod 64 = 0" unfolding n_def by presburger
  have enc: "base64_encode [a, b] =
      [b64_char (n div 262144), b64_char (n div 4096), b64_char (n div 64), CHR ''='']"
    by (simp add: n_def Let_def)
  have sx: "List.map_filter unbase64 (base64_encode [a, b]) =
      [n div 262144 mod 64, n div 4096 mod 64, n div 64 mod 64]"
    unfolding enc by (simp add: List.map_filter_simps unbase64_b64_char unbase64_pad)
  have "decode_sextets (List.map_filter unbase64 (base64_encode [a, b])) =
      [chr (m div 65536), chr (m div 256)]"
    unfolding sx m_def n0 by (simp only: decode_sextets.simps Let_def add_0_right)
  then show ?thesis
    using decode_group [OF ord_less_256 ord_less_256 _ n_def m_def]
    by (simp add: chr_ord)
qed

lemma decode_one:
  "decode_sextets (List.map_filter unbase64 (base64_encode [a])) = [a]"
proof -
  define n where "n = ord a * 65536 + 0 * 256 + 0"
  define m where "m = (n div 262144 mod 64) * 262144 + (n div 4096 mod 64) * 4096 +
                  (n div 64 mod 64) * 64 + n mod 64"
  have nn: "n = (ord a * 1024) * 64" unfolding n_def by simp
  have n0: "n mod 64 = 0" unfolding nn by simp
  have n1: "n div 64 mod 64 = 0" unfolding nn by simp
  have enc: "base64_encode [a] =
      [b64_char (n div 262144), b64_char (n div 4096), CHR ''='', CHR ''='']"
    by (simp add: n_def Let_def)
  have sx: "List.map_filter unbase64 (base64_encode [a]) =
      [n div 262144 mod 64, n div 4096 mod 64]"
    unfolding enc by (simp add: List.map_filter_simps unbase64_b64_char unbase64_pad)
  have "decode_sextets (List.map_filter unbase64 (base64_encode [a])) =
      [chr (m div 65536)]"
    unfolding sx m_def n0 n1
    by (simp only: decode_sextets.simps add_0_right mult_zero_left)
  then show ?thesis
    using decode_group [OF ord_less_256 _ _ n_def m_def]
    by (simp add: chr_ord)
qed

lemma decode_encode: "decode_sextets (List.map_filter unbase64 (base64_encode s)) = s"
proof (induction s rule: base64_encode.induct)
  case (1 a b c rest)
  then show ?case by (simp only: decode_three)
next
  case (2 a b)
  show ?case by (rule decode_two)
next
  case (3 a)
  show ?case by (rule decode_one)
next
  case 4
  show ?case by (simp add: List.map_filter_simps)
qed



lemma url_round:
  "CHR ''-'' \<notin> set e \<Longrightarrow> CHR ''_'' \<notin> set e \<Longrightarrow>
   replace_all (CHR ''_'') (CHR ''/'') (replace_all (CHR ''-'') (CHR ''+'')
     (remove_all (CHR ''='') (replace_all (CHR ''/'') (CHR ''_'')
        (replace_all (CHR ''+'') (CHR ''-'') e)))) = remove_all (CHR ''='') e"
  by (induction e) (auto simp: replace_all_def remove_all_def)

lemma map_filter_remove:
  "f a = None \<Longrightarrow> List.map_filter f (remove_all a xs) = List.map_filter f xs"
  by (induction xs) (auto simp: remove_all_def List.map_filter_simps split: option.splits)

lemma takeWhile_padded:
  "a \<notin> set xs \<Longrightarrow> takeWhile (\<lambda>c. c \<noteq> a) (xs @ replicate k a) = xs"
proof (induction xs)
  case Nil
  show ?case by (cases k) simp_all
next
  case (Cons x xs)
  then show ?case by auto
qed

lemma ascii_remove: "ascii s \<Longrightarrow> ascii (remove_all a s)"
  by (simp add: ascii_def remove_all_def list_all_iff)

lemma ascii_replicate_pad: "ascii (replicate k (CHR ''=''))"
  by (simp add: ascii_def list_all_iff ord_def)

lemma fromBase64Url_toBase64Url:
  "\<exists>k. fromBase64Url (toBase64Url s) =
     remove_all (CHR ''='') (base64_encode s) @ replicate k (CHR ''='')"
  using base64_encode_standard [of s]
  by (simp add: fromBase64Url_def toBase64Url_def url_round Let_def)

lemma base64_decode_url: "base64_decode (fromBase64Url (toBase64Url s)) = s"
proof -
  obtain k where k: "fromBase64Url (toBase64Url s) =
     remove_all (CHR ''='') (base64_encode s) @ replicate k (CHR ''='')"
    using fromBase64Url_toBase64Url by blast
  have a: "ascii (remove_all (CHR ''='') (base64_encode s) @ replicate k (CHR ''=''))"
    by (simp add: ascii_append ascii_remove base64_encode_ascii ascii_replicate_pad)
  have n: "CHR ''='' \<notin> set (remove_all (CHR ''='') (base64_encode s))"
    by (simp add: remove_all_def)
  show ?thesis
    unfolding k base64_decode_def low_bytes_ascii [OF a] takeWhile_padded [OF n]
    by (simp add: map_filter_remove unbase64_pad decode_encode)
qed

subsection \<open>Numbers\<close>

text \<open>Integers below \<open>2^53\<close> are doubles: rounding leaves them as they are.\<close>

lemma ilog2_bounds: "0 < n \<Longrightarrow> 2 ^ ilog2 n \<le> n \<and> n < 2 ^ Suc (ilog2 n)"
proof (induction n rule: ilog2.induct)
  case (1 n)
  show ?case
  proof (cases "n < 2")
    case True
    then have "ilog2 n = 0" by (subst ilog2.simps) simp
    then show ?thesis using True 1(2) by simp
  next
    case False
    then have pos: "0 < n div 2" by simp
    have IH: "2 ^ ilog2 (n div 2) \<le> n div 2 \<and> n div 2 < 2 ^ Suc (ilog2 (n div 2))"
      using 1(1) [OF False pos] .
    have e: "ilog2 n = Suc (ilog2 (n div 2))" using False by (subst ilog2.simps) simp
    define k where "k = (2::nat) ^ ilog2 (n div 2)"
    have "k \<le> n div 2" and "n div 2 < 2 * k" using IH by (simp_all add: k_def)
    then have "2 * k \<le> n \<and> n < 2 * (2 * k)" by arith
    then show ?thesis unfolding e by (simp add: k_def)
  qed
qed

lemma ilog2_less: "0 < n \<Longrightarrow> n < 2 ^ k \<Longrightarrow> ilog2 n < k"
proof -
  assume "0 < n" and "n < 2 ^ k"
  then have "(2::nat) ^ ilog2 n \<le> n" and "n < 2 ^ k" using ilog2_bounds [of n] by blast+
  then have "(2::nat) ^ ilog2 n < 2 ^ k" by (rule le_less_trans)
  then show ?thesis by (rule power_less_imp_less_exp [rotated]) simp
qed

lemma round_half_even_int: "round_half_even (of_int z) = z"
  by (simp add: round_half_even_def Let_def)

lemma pow2_1024_bound: "n < 2 ^ 53 \<Longrightarrow> \<not> pow2 1024 \<le> of_nat n"
proof -
  assume "n < 2 ^ 53"
  then have "(of_nat n :: rat) < of_nat (2 ^ 53)" by (simp only: of_nat_less_iff)
  also have "(of_nat (2 ^ 53) :: rat) = 2 ^ 53" by (simp only: of_nat_power of_nat_numeral)
  also have "(2 :: rat) ^ 53 \<le> 2 ^ 1024" by (rule power_increasing) simp_all
  also have "(2 :: rat) ^ 1024 = pow2 1024" by (simp add: pow2_def)
  finally show ?thesis by simp
qed

lemma round_magnitude_nat:
  assumes "n < 2 ^ 53"
  shows "round_magnitude (of_nat n) = Finite (of_nat n)"
proof (cases "n = 0")
  case True
  then show ?thesis by (simp add: round_magnitude_def)
next
  case False
  define k where "k = ilog2 n"
  have "k < 53" unfolding k_def using False assms by (simp add: ilog2_less)
  then have k: "k \<le> 52" by simp
  have pos: "\<not> (of_nat n :: rat) \<le> 0" using False by simp
  have b: "binade (of_nat n) = int k" using False by (simp add: binade_def k_def)
  have u: "pow2 (max (int k) (- 1022) - 52) = 1 / 2 ^ (52 - k)"
  proof (cases "k = 52")
    case True
    then show ?thesis by (simp add: pow2_def)
  next
    case False
    then have "nat (52 - int k) = 52 - k" and "\<not> 0 \<le> int k - 52" using k by simp_all
    then show ?thesis by (simp add: pow2_def)
  qed
  have q: "of_nat n / (1 / 2 ^ (52 - k)) = (of_int (int (n * 2 ^ (52 - k))) :: rat)"
    by simp
  have v: "of_int (round_half_even (of_nat n / (1 / 2 ^ (52 - k)))) * (1 / 2 ^ (52 - k)) =
      (of_nat n :: rat)"
    unfolding q round_half_even_int by simp
  show ?thesis
    unfolding round_magnitude_def Let_def b u v
    using pos pow2_1024_bound [OF assms] by (simp only: if_False)
qed

lemma to_double_nat:
  "n < 2 ^ 53 \<Longrightarrow>
   to_double neg (of_nat n) =
     (if neg then (if n = 0 then NegZero else Finite (- of_nat n)) else Finite (of_nat n))"
  by (simp add: to_double_def round_magnitude_nat)

text \<open>The decimal rendering of an integer reads back as that integer.\<close>

lemma decimal_digits:
  "list_all (\<lambda>d. is_digit (''0123456789'' ! d) \<and> ord (''0123456789'' ! d) - 48 = d \<and>
      ((''0123456789'' ! d) = CHR ''0'') = (d = 0)) [0..<10]"
  by (simp add: upt_rec is_digit_def ord_def)

lemma decimal_digit:
  "d < 10 \<Longrightarrow> is_digit (''0123456789'' ! d) \<and> ord (''0123456789'' ! d) - 48 = d \<and>
      ((''0123456789'' ! d) = CHR ''0'') = (d = 0)"
  using decimal_digits by (simp add: list_all_iff)

lemma show_nat_small: "n < 10 \<Longrightarrow> show_nat n = [''0123456789'' ! n]"
  by (subst show_nat.simps) simp

lemma show_nat_large:
  "\<not> n < 10 \<Longrightarrow> show_nat n = show_nat (n div 10) @ [''0123456789'' ! (n mod 10)]"
  by (subst show_nat.simps) simp

lemma show_nat_nonempty: "show_nat n \<noteq> []"
  by (cases "n < 10") (simp_all add: show_nat_small show_nat_large)

lemma show_nat_digits: "list_all is_digit (show_nat n)"
proof (induction n rule: show_nat.induct)
  case (1 n)
  show ?case
  proof (cases "n < 10")
    case True
    then show ?thesis using decimal_digit [of n] by (simp add: show_nat_small)
  next
    case False
    then show ?thesis
      using 1 decimal_digit [of "n mod 10"] by (simp add: show_nat_large)
  qed
qed

lemma digits_value_snoc: "digits_value (ds @ [d]) = 10 * digits_value ds + (ord d - 48)"
  by (simp add: digits_value_def)

lemma digits_value_nil: "digits_value [] = 0"
  by (simp add: digits_value_def)

lemma digits_value_show_nat: "digits_value (show_nat n) = n"
proof (induction n rule: show_nat.induct)
  case (1 n)
  show ?case
  proof (cases "n < 10")
    case True
    then show ?thesis
      using decimal_digit [of n] by (simp add: show_nat_small digits_value_def)
  next
    case False
    then show ?thesis
      using 1 decimal_digit [of "n mod 10"] by (simp add: show_nat_large digits_value_snoc)
  qed
qed

lemma hd_show_nat: "(hd (show_nat n) = CHR ''0'') = (n = 0)"
proof (induction n rule: show_nat.induct)
  case (1 n)
  show ?case
  proof (cases "n < 10")
    case True
    then show ?thesis using decimal_digit [of n] by (simp add: show_nat_small)
  next
    case False
    then have "n div 10 \<noteq> 0" by simp
    then show ?thesis
      using 1 False by (simp add: show_nat_large show_nat_nonempty)
  qed
qed

lemma show_nat_zero: "show_nat 0 = ''0''"
  by (simp add: show_nat_small)

lemma is_digit_hd_show_nat: "is_digit (hd (show_nat n))"
  using show_nat_digits [of n] show_nat_nonempty [of n] by (cases "show_nat n") simp_all

lemma takeWhile_show_nat:
  "\<not> is_digit c \<Longrightarrow> takeWhile is_digit (show_nat n @ c # r) = show_nat n"
  using show_nat_digits [of n] by (simp add: takeWhile_append2 list_all_iff)

lemma minus_not_digit: "\<not> is_digit (CHR ''-'')"
  by (simp add: is_digit_def ord_def)

lemma show_nat_no_sign: "str_startsWith (show_nat n @ r) ''-'' = False"
  using is_digit_hd_show_nat [of n] show_nat_nonempty [of n] minus_not_digit
  by (cases "show_nat n") auto

lemma parse_unsigned:
  assumes c: "\<not> is_digit c" "c \<noteq> CHR ''.''" "c \<noteq> CHR ''e''" "c \<noteq> CHR ''E''"
  shows "parse_number (show_nat n @ c # r) = Some (to_double False (of_nat n), c # r)"
proof -
  have ip: "(if hd (show_nat n @ c # r) = CHR ''0'' then ''0''
             else takeWhile is_digit (show_nat n @ c # r)) = show_nat n"
    using hd_show_nat [of n] show_nat_nonempty [of n] c(1)
    by (auto simp: takeWhile_show_nat show_nat_zero)
  have d: "is_digit (hd (show_nat n @ c # r))"
    using is_digit_hd_show_nat [of n] show_nat_nonempty [of n] by simp
  have ne: "(show_nat n @ c # r = []) = False" by simp
  have s2: "drop (length (show_nat n)) (show_nat n @ c # r) = c # r" by simp
  have f: "str_startsWith (c # r) ''.'' = False" "str_startsWith (c # r) ''e'' = False"
    "str_startsWith (c # r) ''E'' = False"
    using c by simp_all
  have t: "takeWhile is_digit [] = []" "length ([]::string) = 0"
    by simp_all
  have m: "(of_nat n + of_nat 0 / 10 ^ 0) * 10 ^ 0 = (of_nat n :: rat)" by simp
  show ?thesis
    unfolding parse_number_def Let_def show_nat_no_sign if_False ip ne s2 f
      simp_thms t digits_value_show_nat digits_value_nil m
    by (simp add: d)
qed

lemma parse_negative:
  assumes c: "\<not> is_digit c" "c \<noteq> CHR ''.''" "c \<noteq> CHR ''e''" "c \<noteq> CHR ''E''"
  shows "parse_number (CHR ''-'' # show_nat n @ c # r) = Some (to_double True (of_nat n), c # r)"
proof -
  have ip: "(if hd (show_nat n @ c # r) = CHR ''0'' then ''0''
             else takeWhile is_digit (show_nat n @ c # r)) = show_nat n"
    using hd_show_nat [of n] show_nat_nonempty [of n] c(1)
    by (auto simp: takeWhile_show_nat show_nat_zero)
  have d: "is_digit (hd (show_nat n @ c # r))"
    using is_digit_hd_show_nat [of n] show_nat_nonempty [of n] by simp
  have s: "str_startsWith (CHR ''-'' # show_nat n @ c # r) ''-'' = True" by simp
  have ne: "(show_nat n @ c # r = []) = False" by simp
  have s2: "drop (length (show_nat n)) (show_nat n @ c # r) = c # r" by simp
  have f: "str_startsWith (c # r) ''.'' = False" "str_startsWith (c # r) ''e'' = False"
    "str_startsWith (c # r) ''E'' = False"
    using c by simp_all
  have t: "takeWhile is_digit [] = []" "length ([]::string) = 0"
    by simp_all
  have m: "(of_nat n + of_nat 0 / 10 ^ 0) * 10 ^ 0 = (of_nat n :: rat)" by simp
  show ?thesis
    unfolding parse_number_def Let_def s if_True list.sel ip ne if_False s2 f
      simp_thms t digits_value_show_nat digits_value_nil m
    by (simp add: d)
qed

lemma parse_show_int:
  assumes c: "\<not> is_digit c" "c \<noteq> CHR ''.''" "c \<noteq> CHR ''e''" "c \<noteq> CHR ''E''"
      and i: "\<bar>i\<bar> < 2 ^ 53"
  shows "parse_number (show_int i @ c # r) = Some (Finite (of_int i), c # r)"
proof (cases "i < 0")
  case True
  have "nat (- i) < 2 ^ 53" using i True by (simp add: nat_less_iff)
  moreover have "nat (- i) \<noteq> 0" using True by simp
  moreover have "(of_nat (nat (- i)) :: rat) = - of_int i" using True by simp
  ultimately have "to_double True (of_nat (nat (- i))) = Finite (of_int i)"
    using to_double_nat [of "nat (- i)" True] by (simp only: if_True if_False minus_minus)
  then show ?thesis using True parse_negative [OF c, of "nat (- i)" r] by (simp add: show_int_def)
next
  case False
  have "nat i < 2 ^ 53" using i False by (simp add: nat_less_iff)
  moreover have "(of_nat (nat i) :: rat) = of_int i" using False by simp
  ultimately have "to_double False (of_nat (nat i)) = Finite (of_int i)"
    using to_double_nat [of "nat i" False] by (simp only: if_False)
  then show ?thesis using False parse_unsigned [OF c, of "nat i" r] by (simp add: show_int_def)
qed

lemma time_value_double: "time_value t \<Longrightarrow> \<bar>t\<bar> < 2 ^ 53 \<and> \<bar>t + 7 * 24 * 60 * 60 * 1000\<bar> < 2 ^ 53"
  by (auto simp: time_value_def abs_less_iff)

subsection \<open>Strings\<close>

text \<open>A string literal written by \<open>JSON.stringify\<close> reads back as the string.\<close>

lemma hex4_value_hex4_all:
  "list_all (\<lambda>n. hex4_value (hex4 n @ t) = Some n) [0..<32]"
  by (simp add: upt_rec hex4_def hex4_value_def hex_digit_def ord_def)

lemma hex4_value_hex4: "n < 32 \<Longrightarrow> hex4_value (hex4 n @ t) = Some n"
  using hex4_value_hex4_all [of t] by (simp add: list_all_iff)

lemma length_hex4: "length (hex4 n) = 4"
  by (simp add: hex4_def)

lemma parse_chars_escape_u:
  assumes "ord c < 32"
  shows "parse_chars ([CHR 0x5C, CHR ''u''] @ hex4 (ord c) @ rest) =
         map_option (apfst ((#) c)) (parse_chars rest)"
proof -
  have e: "utf8_encode (ord c) = [c]" using assms by (simp add: utf8_encode_def chr_ord)
  have a: "(@) [c] = (#) c" by (rule ext) simp
  show ?thesis
    using assms
    by (simp add: hex4_value_hex4 length_hex4 e a ord_def [of "CHR 0x5C"])
qed

lemma parse_chars_quote_char:
  "parse_chars (quote_char c @ rest) = map_option (apfst ((#) c)) (parse_chars rest)"
proof -
  consider "c = CHR 0x22" | "c = CHR 0x5C" | "c = CHR 0x08" | "c = CHR 0x09" | "c = CHR 0x0A"
    | "c = CHR 0x0C" | "c = CHR 0x0D"
    | "c \<noteq> CHR 0x22" "c \<noteq> CHR 0x5C" "c \<noteq> CHR 0x08" "c \<noteq> CHR 0x09" "c \<noteq> CHR 0x0A"
      "c \<noteq> CHR 0x0C" "c \<noteq> CHR 0x0D" "ord c < 32"
    | "c \<noteq> CHR 0x22" "c \<noteq> CHR 0x5C" "\<not> ord c < 32"
    by blast
  then show ?thesis
  proof cases
    case 8
    then have "quote_char c = [CHR 0x5C, CHR ''u''] @ hex4 (ord c)"
      by (simp add: quote_char_def)
    then show ?thesis using parse_chars_escape_u [OF 8(8)] by simp
  next
    case 9
    then have "quote_char c = [c]" by (auto simp: quote_char_def ord_def)
    then show ?thesis using 9 by simp
  qed (simp_all add: quote_char_def unescape_def ord_def)
qed

lemma parse_chars_quoted:
  "parse_chars (concat (map quote_char s) @ CHR 0x22 # rest) = Some (s, rest)"
  by (induction s) (simp_all add: parse_chars_quote_char)

text \<open>UTF-8 decoding leaves the encoding of a text as it is.\<close>

lemma utf8_scrub_ascii:
  "ascii a \<Longrightarrow> utf8_scrub [] 0 128 191 (a @ t) = a @ utf8_scrub [] 0 128 191 t"
  by (induction a) (simp_all add: ascii_def)

lemma hex4_ascii: "ascii (hex4 n)"
proof -
  have "list_all (\<lambda>d. ord (''0123456789abcdef'' ! d) < 128) [0..<16]"
    by (simp add: upt_rec ord_def)
  then have "d < 16 \<Longrightarrow> ord (''0123456789abcdef'' ! d) < 128" for d
    by (simp add: list_all_iff)
  then show ?thesis by (simp add: hex4_def ascii_def)
qed

lemma quote_char_ascii: "ord c < 128 \<Longrightarrow> ascii (quote_char c)"
  using hex4_ascii [of "ord c"]
  by (auto simp: quote_char_def ascii_def ord_def [of "CHR 0x5C"] ord_def [of "CHR 0x22"]
      ord_def [of "CHR ''b''"] ord_def [of "CHR ''t''"] ord_def [of "CHR ''n''"]
      ord_def [of "CHR ''f''"] ord_def [of "CHR ''r''"] ord_def [of "CHR ''u''"])

lemma quote_char_high:
  assumes "128 \<le> ord c"
  shows "quote_char c = [c]"
proof -
  have "list_all (\<lambda>x. ord x < 128)
      [CHR 0x22, CHR 0x5C, CHR 0x08, CHR 0x09, CHR 0x0A, CHR 0x0C, CHR 0x0D]"
    by (simp add: ord_def)
  then have "c \<notin> set [CHR 0x22, CHR 0x5C, CHR 0x08, CHR 0x09, CHR 0x0A, CHR 0x0C, CHR 0x0D]"
    using assms unfolding list_all_iff by fastforce
  moreover have "\<not> ord c < 32" using assms by simp
  ultimately show ?thesis by (simp add: quote_char_def)
qed

lemma in_ranges_one:
  "in_ranges [(l, h)] r \<Longrightarrow> \<exists>c r'. r = c # r' \<and> l \<le> ord c \<and> ord c \<le> h"
  by (cases r) simp_all

lemma in_ranges_two:
  "in_ranges [(l, h), (l', h')] r \<Longrightarrow>
   \<exists>c d r'. r = c # d # r' \<and> l \<le> ord c \<and> ord c \<le> h \<and> l' \<le> ord d \<and> ord d \<le> h'"
  by (cases r; cases "tl r") auto

lemma in_ranges_three:
  "in_ranges [(l, h), (l', h'), (l'', h'')] r \<Longrightarrow>
   \<exists>c d e r'. r = c # d # e # r' \<and> l \<le> ord c \<and> ord c \<le> h \<and> l' \<le> ord d \<and> ord d \<le> h' \<and>
      l'' \<le> ord e \<and> ord e \<le> h''"
  by (cases r; cases "tl r"; cases "tl (tl r)") auto

lemma utf8_scrub_quoted:
  "utf8_valid s \<Longrightarrow>
   utf8_scrub [] 0 128 191 (concat (map quote_char s) @ t) =
     concat (map quote_char s) @ utf8_scrub [] 0 128 191 t"
proof (induction s rule: utf8_valid.induct)
  case 1
  show ?case by simp
next
  case (2 a r)
  define n where "n = ord a"
  consider "n < 128" | "194 \<le> n" "n \<le> 223" | "224 \<le> n" "n \<le> 239" | "240 \<le> n" "n \<le> 244"
    using "2.prems" unfolding n_def by (auto simp: Let_def split: if_splits)
  then show ?case
  proof cases
    case 1
    then have v: "utf8_valid r" using "2.prems" by (simp add: n_def Let_def)
    have "ascii (quote_char a)" using 1 by (simp add: quote_char_ascii n_def)
    then show ?thesis
      using "2.IH"(1) [OF n_def 1 v] by (simp add: utf8_scrub_ascii)
  next
    case 2
    then have p: "in_ranges [(128, 191)] r" "utf8_valid (drop 1 r)"
      using "2.prems" by (simp_all add: n_def Let_def)
    obtain c r' where r: "r = c # r'" "128 \<le> ord c" "ord c \<le> 191"
      using in_ranges_one [OF p(1)] by blast
    have IH: "utf8_scrub [] 0 128 191 (concat (map quote_char r') @ t) =
        concat (map quote_char r') @ utf8_scrub [] 0 128 191 t"
      using "2.IH"(2) [OF n_def _ _ p(2)] 2 r(1) by simp
    have q: "quote_char a = [a]" "quote_char c = [c]"
      using 2 r by (simp_all add: quote_char_high n_def)
    show ?thesis
      using 2 r IH by (simp add: q n_def [symmetric])
  next
    case 3
    then have p: "in_ranges [(if n = 224 then 160 else 128, if n = 237 then 159 else 191),
         (128, 191)] r" "utf8_valid (drop 2 r)"
      using "2.prems" by (simp_all add: n_def Let_def)
    obtain c d r' where r: "r = c # d # r'" "(if n = 224 then 160 else 128) \<le> ord c"
        "ord c \<le> (if n = 237 then 159 else 191)" "128 \<le> ord d" "ord d \<le> 191"
      using in_ranges_two [OF p(1)] by blast
    have IH: "utf8_scrub [] 0 128 191 (concat (map quote_char r') @ t) =
        concat (map quote_char r') @ utf8_scrub [] 0 128 191 t"
      using "2.IH"(3) [OF n_def _ _ _ p(2)] 3 r(1) by simp
    have "128 \<le> ord c" using r(2) by (simp split: if_splits)
    then have q: "quote_char a = [a]" "quote_char c = [c]" "quote_char d = [d]"
      using 3 r by (simp_all add: quote_char_high n_def)
    show ?thesis
      using 3 r IH by (simp add: q n_def [symmetric])
  next
    case 4
    then have p: "in_ranges [(if n = 240 then 144 else 128, if n = 244 then 143 else 191),
         (128, 191), (128, 191)] r" "utf8_valid (drop 3 r)"
      using "2.prems" by (simp_all add: n_def Let_def)
    obtain c d e r' where r: "r = c # d # e # r'" "(if n = 240 then 144 else 128) \<le> ord c"
        "ord c \<le> (if n = 244 then 143 else 191)" "128 \<le> ord d" "ord d \<le> 191"
        "128 \<le> ord e" "ord e \<le> 191"
      using in_ranges_three [OF p(1)] by blast
    have IH: "utf8_scrub [] 0 128 191 (concat (map quote_char r') @ t) =
        concat (map quote_char r') @ utf8_scrub [] 0 128 191 t"
      using "2.IH"(4) [OF n_def _ _ _ _ p(2)] 4 r(1) by simp
    have "128 \<le> ord c" using r(2) by (simp split: if_splits)
    then have q: "quote_char a = [a]" "quote_char c = [c]" "quote_char d = [d]"
        "quote_char e = [e]"
      using 4 r by (simp_all add: quote_char_high n_def)
    show ?thesis
      using 4 r IH by (simp add: q n_def [symmetric])
  qed
qed

subsection \<open>Tokens\<close>

text \<open>The sections of a token of the first \<open>generateToken\<close>, and why the shared
  \<open>verifyToken\<close> rejects it: the signature it carries ends with the padding character, the
  signature it is compared with has none.\<close>

lemma generateToken_split:
  "str_split (CHR ''.'') (generateToken secret t1 t2 u o') =
     [base64_encode (JSON_stringify [(''alg'', LStr ''HS256''), (''typ'', LStr ''JWT'')]),
      base64_encode (JSON_stringify [(''sub'', LStr u), (''openid'', LStr o'),
         (''iat'', LInt t1), (''exp'', LInt (t2 + 7 * 24 * 60 * 60 * 1000))]),
      base64_encode (hmac_sha256 secret
        (base64_encode (JSON_stringify [(''alg'', LStr ''HS256''), (''typ'', LStr ''JWT'')]) @ ''.'' @
         base64_encode (JSON_stringify [(''sub'', LStr u), (''openid'', LStr o'),
           (''iat'', LInt t1), (''exp'', LInt (t2 + 7 * 24 * 60 * 60 * 1000))])))]"
  unfolding generateToken_def Let_def
  using str_split3 [OF base64_encode_no_dot base64_encode_no_dot base64_encode_no_dot]
  by simp

lemma generateToken_rejected:
  "verifyToken_try secret now (generateToken secret t1 t2 u o') =
     (Inr None,
      [CreateHmac (base64_encode (JSON_stringify [(''alg'', LStr ''HS256''), (''typ'', LStr ''JWT'')]) @ ''.'' @
         base64_encode (JSON_stringify [(''sub'', LStr u), (''openid'', LStr o'),
           (''iat'', LInt t1), (''exp'', LInt (t2 + 7 * 24 * 60 * 60 * 1000))]))])"
proof -
  let ?h = "base64_encode (JSON_stringify [(''alg'', LStr ''HS256''), (''typ'', LStr ''JWT'')])"
  let ?p = "base64_encode (JSON_stringify [(''sub'', LStr u), (''openid'', LStr o'),
           (''iat'', LInt t1), (''exp'', LInt (t2 + 7 * 24 * 60 * 60 * 1000))])"
  let ?d = "base64_encode (hmac_sha256 secret (?h @ ''.'' @ ?p))"
  have "CHR ''='' \<in> set ?d"
    using signature_padded [of secret "?h @ ''.'' @ ?p"] last_in_set by metis
  moreover have "CHR ''='' \<notin> set (remove_all (CHR ''='') (replace_all (CHR ''/'') (CHR ''_'')
      (replace_all (CHR ''+'') (CHR ''-'') ?d)))"
    by (rule url_safe_no_pad)
  ultimately have "?d \<noteq> remove_all (CHR ''='') (replace_all (CHR ''/'') (CHR ''_'')
      (replace_all (CHR ''+'') (CHR ''-'') ?d))"
    by metis
  then show ?thesis
    unfolding verifyToken_try_def generateToken_split Let_def by simp
qed

lemma url_signature_no_dot: "CHR ''.'' \<notin> set (url_signature secret msg)"
  unfolding url_signature_def by (rule url_safe_no_dot)

text \<open>The payload that \<open>generateToken\<close> writes is parsed back to its members.\<close>

lemma show_int_head: "\<exists>x xs. show_int i = x # xs \<and> (is_digit x \<or> x = CHR ''-'')"
proof (cases "i < 0")
  case True
  then show ?thesis by (simp add: show_int_def)
next
  case False
  obtain x xs where "show_nat (nat i) = x # xs"
    using show_nat_nonempty [of "nat i"] by (cases "show_nat (nat i)") simp_all
  then show ?thesis
    using False is_digit_hd_show_nat [of "nat i"] by (simp add: show_int_def)
qed

lemma head_of_number:
  assumes "is_digit x \<or> x = CHR ''-''"
  shows "\<not> json_ws x" and "x \<noteq> CHR ''{''" and "x \<noteq> CHR ''[''" and "x \<noteq> CHR 0x22"
    and "x \<noteq> CHR ''t''" and "x \<noteq> CHR ''f''" and "x \<noteq> CHR ''n''"
proof -
  have "list_all (\<lambda>c. \<not> is_digit c \<and> c \<noteq> CHR ''-'')
      [CHR 0x20, CHR 0x09, CHR 0x0A, CHR 0x0D, CHR ''{'', CHR ''['', CHR 0x22, CHR ''t'',
       CHR ''f'', CHR ''n'']"
    by (simp add: is_digit_def ord_def)
  then have "x \<notin> set [CHR 0x20, CHR 0x09, CHR 0x0A, CHR 0x0D, CHR ''{'', CHR ''['', CHR 0x22,
       CHR ''t'', CHR ''f'', CHR ''n'']"
    using assms unfolding list_all_iff by blast
  then show "\<not> json_ws x" and "x \<noteq> CHR ''{''" and "x \<noteq> CHR ''[''" and "x \<noteq> CHR 0x22"
    and "x \<noteq> CHR ''t''" and "x \<noteq> CHR ''f''" and "x \<noteq> CHR ''n''"
    by (simp_all add: json_ws_def)
qed

lemma parse_value_string:
  "parse_value (CHR 0x22 # concat (map quote_char v) @ CHR 0x22 # rest) = Some (Str v, rest)"
  by (subst parse_value.simps) (simp add: skip_ws_def json_ws_def parse_chars_quoted)

lemma parse_value_int:
  assumes c: "\<not> is_digit c" "c \<noteq> CHR ''.''" "c \<noteq> CHR ''e''" "c \<noteq> CHR ''E''"
      and i: "\<bar>i\<bar> < 2 ^ 53"
  shows "parse_value (show_int i @ c # rest) = Some (Num (Finite (of_int i)), c # rest)"
proof -
  obtain x xs where x: "show_int i = x # xs" "is_digit x \<or> x = CHR ''-''"
    using show_int_head by blast
  note h = head_of_number [OF x(2)]
  have sk: "skip_ws (show_int i @ c # rest) = x # xs @ c # rest"
    using x(1) h(1) by (simp add: skip_ws_def)
  have pn: "parse_number (x # xs @ c # rest) = Some (Finite (of_int i), c # rest)"
    using parse_show_int [OF c i, of rest] x(1) by simp
  show ?thesis
    by (subst parse_value.simps) (simp add: sk h pn)
qed

lemma parse_member:
  assumes pv: "parse_value (vt @ d # rest) = Some (v, d # rest)"
      and d: "d = CHR '','' \<or> d = CHR ''}''"
  shows "parse_members
           (CHR 0x22 # concat (map quote_char k) @ CHR 0x22 # CHR '':'' # vt @ d # rest) =
         (if d = CHR '','' then map_option (apfst ((#) (k, v))) (parse_members rest)
          else Some ([(k, v)], rest))"
proof -
  have sk: "skip_ws (d # rest) = d # rest"
    using d by (auto simp: skip_ws_def json_ws_def)
  have sk2: "skip_ws (CHR '':'' # t) = CHR '':'' # t" for t
    by (simp add: skip_ws_def json_ws_def)
  have sk3: "skip_ws (CHR 0x22 # t) = CHR 0x22 # t" for t
    by (simp add: skip_ws_def json_ws_def)
  show ?thesis
    using d by (subst parse_members.simps) (auto simp: sk sk2 sk3 parse_chars_quoted pv)
qed

lemma separators:
  "\<not> is_digit (CHR '','')" "\<not> is_digit (CHR ''}'')"
  by (simp_all add: is_digit_def ord_def)

lemma parse_payload:
  assumes a: "\<bar>a\<bar> < 2 ^ 53" and b: "\<bar>b\<bar> < 2 ^ 53"
  shows "JSON_parse (JSON_stringify [(''sub'', LStr u), (''openid'', LStr o'),
            (''iat'', LInt a), (''exp'', LInt b)]) =
         Inr (Obj [(''sub'', Str u), (''openid'', Str o'), (''iat'', Num (Finite (of_int a))),
                   (''exp'', Num (Finite (of_int b)))])"
proof -
  define m4 where "m4 = CHR 0x22 # concat (map quote_char ''exp'') @ CHR 0x22 # CHR '':'' #
      show_int b @ CHR ''}'' # []"
  define m3 where "m3 = CHR 0x22 # concat (map quote_char ''iat'') @ CHR 0x22 # CHR '':'' #
      show_int a @ CHR '','' # m4"
  define m2 where "m2 = CHR 0x22 # concat (map quote_char ''openid'') @ CHR 0x22 # CHR '':'' #
      (CHR 0x22 # concat (map quote_char o') @ [CHR 0x22]) @ CHR '','' # m3"
  define m1 where "m1 = CHR 0x22 # concat (map quote_char ''sub'') @ CHR 0x22 # CHR '':'' #
      (CHR 0x22 # concat (map quote_char u) @ [CHR 0x22]) @ CHR '','' # m2"
  have p4: "parse_members m4 = Some ([(''exp'', Num (Finite (of_int b)))], [])"
    unfolding m4_def
    using parse_member [OF parse_value_int [OF separators(2) _ _ _ b, of "[]"], of "''exp''"]
    by simp
  have p3: "parse_members m3 = Some ([(''iat'', Num (Finite (of_int a))),
      (''exp'', Num (Finite (of_int b)))], [])"
    unfolding m3_def
    using parse_member [OF parse_value_int [OF separators(1) _ _ _ a, of m4], of "''iat''"] p4
    by simp
  have s: "parse_value ((CHR 0x22 # concat (map quote_char w) @ [CHR 0x22]) @ CHR '','' # r) =
      Some (Str w, CHR '','' # r)" for w r
    using parse_value_string [of w "CHR '','' # r"] by simp
  have p2: "parse_members m2 = Some ([(''openid'', Str o'), (''iat'', Num (Finite (of_int a))),
      (''exp'', Num (Finite (of_int b)))], [])"
    unfolding m2_def using parse_member [where k = "''openid''", OF s [of o' m3]] p3 by simp
  have p1: "parse_members m1 = Some ([(''sub'', Str u), (''openid'', Str o'),
      (''iat'', Num (Finite (of_int a))), (''exp'', Num (Finite (of_int b)))], [])"
    unfolding m1_def using parse_member [where k = "''sub''", OF s [of u m2]] p2 by simp
  have t: "JSON_stringify [(''sub'', LStr u), (''openid'', LStr o'),
            (''iat'', LInt a), (''exp'', LInt b)] = CHR ''{'' # m1"
    by (simp add: JSON_stringify_def quote_def m1_def m2_def m3_def m4_def)
  have sk: "skip_ws (CHR ''{'' # m1) = CHR ''{'' # m1"
    by (simp add: skip_ws_def json_ws_def)
  have sk1: "skip_ws m1 = m1"
    by (simp add: skip_ws_def json_ws_def m1_def)
  have f: "\<not> str_startsWith m1 ''}''"
    by (simp add: m1_def)
  have "parse_value (CHR ''{'' # m1) = Some (Obj [(''sub'', Str u), (''openid'', Str o'),
      (''iat'', Num (Finite (of_int a))), (''exp'', Num (Finite (of_int b)))], [])"
    by (subst parse_value.simps) (simp add: sk sk1 f p1)
  then show ?thesis
    unfolding t by (simp add: JSON_parse_def skip_ws_def)
qed

text \<open>UTF-8 decoding leaves the payload as it is.\<close>

lemma is_digit_ascii: "is_digit c \<Longrightarrow> ord c < 128"
  by (simp add: is_digit_def)

lemma show_int_ascii: "ascii (show_int i)"
proof -
  have "ascii (show_nat n)" for n
    using show_nat_digits [of n] by (auto simp: ascii_def list_all_iff is_digit_ascii)
  then show ?thesis by (simp add: show_int_def ascii_def ord_def [of "CHR ''-''"])
qed

lemma scrub_payload:
  assumes u: "utf8_valid u" and o': "utf8_valid o'"
  shows "Buffer_toString (JSON_stringify [(''sub'', LStr u), (''openid'', LStr o'),
            (''iat'', LInt a), (''exp'', LInt b)]) =
         JSON_stringify [(''sub'', LStr u), (''openid'', LStr o'),
            (''iat'', LInt a), (''exp'', LInt b)]"
proof -
  define a1 where "a1 = ''{'' @ [CHR 0x22] @ ''sub'' @ [CHR 0x22] @ '':'' @ [CHR 0x22]"
  define a2 where "a2 = [CHR 0x22] @ '','' @ [CHR 0x22] @ ''openid'' @ [CHR 0x22] @ '':'' @
      [CHR 0x22]"
  define a3 where "a3 = [CHR 0x22] @ '','' @ [CHR 0x22] @ ''iat'' @ [CHR 0x22] @ '':'' @
      show_int a @ '','' @ [CHR 0x22] @ ''exp'' @ [CHR 0x22] @ '':'' @ show_int b @ ''}''"
  have t: "JSON_stringify [(''sub'', LStr u), (''openid'', LStr o'),
            (''iat'', LInt a), (''exp'', LInt b)] =
      a1 @ concat (map quote_char u) @ a2 @ concat (map quote_char o') @ a3 @ []"
    by (simp add: JSON_stringify_def quote_def a1_def a2_def a3_def quote_char_def ord_def)
  have s1: "ascii a1" by (simp add: a1_def ascii_def ord_def)
  have s2: "ascii a2" by (simp add: a2_def ascii_def ord_def)
  have "ascii ([CHR 0x22] @ '','' @ [CHR 0x22] @ ''iat'' @ [CHR 0x22] @ '':'')"
    and "ascii ('','' @ [CHR 0x22] @ ''exp'' @ [CHR 0x22] @ '':'')" and "ascii ''}''"
    by (simp_all add: ascii_def ord_def)
  then have s3: "ascii a3"
    unfolding a3_def using show_int_ascii [of a] show_int_ascii [of b]
    by (simp add: ascii_def)
  show ?thesis
    unfolding Buffer_toString_def t
    by (simp only: utf8_scrub_ascii [OF s1] utf8_scrub_ascii [OF s2] utf8_scrub_ascii [OF s3]
        utf8_scrub_quoted [OF u] utf8_scrub_quoted [OF o'] utf8_scrub.simps(1) simp_thms
        if_True)
qed

text \<open>Minting and verifying, in each version of the login route.\<close>

lemma login_generateToken_split:
  "str_split (CHR ''.'') (login_generateToken secret t1 t2 u o') =
     [toBase64Url (JSON_stringify [(''alg'', LStr ''HS256''), (''typ'', LStr ''JWT'')]),
      toBase64Url (JSON_stringify [(''sub'', LStr u), (''openid'', LStr o'),
         (''iat'', LInt t1), (''exp'', LInt (t2 + 7 * 24 * 60 * 60 * 1000))]),
      url_signature secret
        (toBase64Url (JSON_stringify [(''alg'', LStr ''HS256''), (''typ'', LStr ''JWT'')]) @ ''.'' @
         toBase64Url (JSON_stringify [(''sub'', LStr u), (''openid'', LStr o'),
           (''iat'', LInt t1), (''exp'', LInt (t2 + 7 * 24 * 60 * 60 * 1000))]))]"
proof -
  let ?h = "toBase64Url (JSON_stringify [(''alg'', LStr ''HS256''), (''typ'', LStr ''JWT'')])"
  let ?p = "toBase64Url (JSON_stringify [(''sub'', LStr u), (''openid'', LStr o'),
      (''iat'', LInt t1), (''exp'', LInt (t2 + 7 * 24 * 60 * 60 * 1000))])"
  let ?g = "url_signature secret (?h @ ''.'' @ ?p)"
  have tok: "login_generateToken secret t1 t2 u o' = ?h @ CHR ''.'' # ?p @ CHR ''.'' # ?g"
    by (simp add: login_generateToken_def Let_def url_signature_def)
  have nd: "CHR ''.'' \<notin> set ?h" "CHR ''.'' \<notin> set ?p"
    unfolding toBase64Url_def by (rule url_safe_no_dot)+
  show ?thesis
    unfolding tok by (rule str_split3 [OF nd url_signature_no_dot])
qed

lemma payload_checked:
  assumes "utf8_valid u" and "utf8_valid o'" and "\<bar>a\<bar> < 2 ^ 53" and "\<bar>b\<bar> < 2 ^ 53"
  shows "bind (JSON_parse (Buffer_toString (JSON_stringify [(''sub'', LStr u),
             (''openid'', LStr o'), (''iat'', LInt a), (''exp'', LInt b)])))
           (\<lambda>decoded.
              bind (get_prop decoded ''exp'') (\<lambda>e.
              bind (less_than_now e now) (\<lambda>expired.
                if expired then Inr None
                else
                  bind (get_prop decoded ''sub'') (\<lambda>sub.
                  bind (get_prop decoded ''openid'') (\<lambda>oid.
                    Inr (Some \<lparr>userId = sub, openid = oid\<rparr>)))))) =
         (if b < now then Inr None else Inr (Some \<lparr>userId = Str u, openid = Str o'\<rparr>))"
  unfolding scrub_payload [OF assms(1,2)] parse_payload [OF assms(3,4)]
  by (simp add: bind_def less_than_now_def)

lemma login_round_trip:
  assumes "utf8_valid u" and "utf8_valid o'" and "time_value t1" and "time_value t2"
  shows "verifyToken secret now (login_generateToken secret t1 t2 u o') =
         (if t2 + 7 * 24 * 60 * 60 * 1000 < now then Inr None
          else Inr (Some \<lparr>userId = Str u, openid = Str o'\<rparr>))"
proof -
  have a: "\<bar>t1\<bar> < 2 ^ 53" and b: "\<bar>t2 + 7 * 24 * 60 * 60 * 1000\<bar> < 2 ^ 53"
    using time_value_double [OF assms(3)] time_value_double [OF assms(4)] by simp_all
  show ?thesis
    unfolding verifyToken_def verifyToken_try_def login_generateToken_split Let_def
    using payload_checked [OF assms(1,2) a b, of now]
    by (simp add: url_signature_def base64_decode_url)
qed


text \<open>A token of the sibling \<open>generateToken\<close>, minted at time 1000 for user \<open>u1\<close> with openid
  \<open>o1\<close>, and what \<open>verifyToken\<close> answers at any time.\<close>

lemma login_token_verified:
  "verifyToken secret now (login_generateToken secret 1000 1000 ''u1'' ''o1'') =
     (if 604801000 < now then Inr None
      else Inr (Some \<lparr>userId = Str ''u1'', openid = Str ''o1''\<rparr>))"
  using login_round_trip [of "''u1''" "''o1''" 1000 1000 secret now]
  by (simp add: time_value_def ord_def)

lemma get_prop_total:
  "get_prop decoded name = Inr v \<Longrightarrow> \<exists>w. get_prop decoded name' = Inr w"
  by (cases decoded) (auto split: option.splits)

text \<open>The sibling \<open>generateToken\<close> does give three URL-safe sections, for every input.\<close>

lemma url_safe_chars:
  "c \<in> set (remove_all (CHR ''='') (replace_all (CHR ''/'') (CHR ''_'')
      (replace_all (CHR ''+'') (CHR ''-'') s))) \<Longrightarrow>
   c \<noteq> CHR ''+'' \<and> c \<noteq> CHR ''/'' \<and> c \<noteq> CHR ''=''"
  by (auto simp: remove_all_def replace_all_def split: if_splits)

lemma login_generateToken_sections:
  "\<exists>h p g. str_split (CHR ''.'') (login_generateToken secret t1 t2 u o') = [h, p, g] \<and>
     CHR ''+'' \<notin> set (h @ p @ g) \<and> CHR ''/'' \<notin> set (h @ p @ g) \<and>
     CHR ''='' \<notin> set (h @ p @ g)"
proof -
  let ?h = "toBase64Url (JSON_stringify [(''alg'', LStr ''HS256''), (''typ'', LStr ''JWT'')])"
  let ?p = "toBase64Url (JSON_stringify [(''sub'', LStr u), (''openid'', LStr o'),
      (''iat'', LInt t1), (''exp'', LInt (t2 + 7 * 24 * 60 * 60 * 1000))])"
  let ?g = "url_signature secret (?h @ ''.'' @ ?p)"
  have "c \<in> set (?h @ ?p @ ?g) \<Longrightarrow>
      c \<noteq> CHR ''+'' \<and> c \<noteq> CHR ''/'' \<and> c \<noteq> CHR ''=''" for c
    using url_safe_chars [of c] unfolding toBase64Url_def url_signature_def by auto
  then show ?thesis
    using login_generateToken_split [of secret t1 t2 u o'] by blast
qed

text \<open>The \<open>try\<close> block does throw: with a correct signature over a payload that is not JSON
  it throws a \<open>SyntaxError\<close>, over the payload \<open>null\<close> a \<open>TypeError\<close>; \<open>verifyToken\<close> returns
  \<open>null\<close> for both.\<close>

lemma block_throws_SyntaxError:
  "fst (verifyToken_try secret now
     (''e30.bm90IGpzb24.'' @ url_signature secret ''e30.bm90IGpzb24'')) = Inl SyntaxError"
proof -
  have sp: "str_split (CHR ''.'') (''e30'' @ CHR ''.'' # ''bm90IGpzb24'' @ CHR ''.'' #
      url_signature secret ''e30.bm90IGpzb24'') =
      [''e30'', ''bm90IGpzb24'', url_signature secret ''e30.bm90IGpzb24'']"
    by (rule str_split3 [OF _ _ url_signature_no_dot]) simp_all
  have a: "ascii ''bm90IGpzb24'' " "ascii ''bm90IGpzb24=''"
    by (simp_all add: ascii_def ord_def)
  have f: "fromBase64Url ''bm90IGpzb24'' = ''bm90IGpzb24=''"
    by (simp add: fromBase64Url_def replace_all_def str_length_ascii [OF a(1)]
        numeral_2_eq_2)
  have dec: "Buffer_toString (base64_decode (fromBase64Url ''bm90IGpzb24'')) = ''not json''"
    unfolding f base64_decode_def low_bytes_ascii [OF a(2)]
    by (simp add: List.map_filter_def unbase64_def ord_def chr_def Buffer_toString_def)
  have "JSON_parse ''not json'' = Inl SyntaxError"
    by (simp add: JSON_parse_def parse_value.simps skip_ws_def json_ws_def parse_number_def
        is_digit_def ord_def Let_def)
  then show ?thesis
    using sp dec by (simp add: verifyToken_try_def Let_def url_signature_def bind_def)
qed

lemma block_throws_TypeError:
  "fst (verifyToken_try secret now
     (''e30.bnVsbA.'' @ url_signature secret ''e30.bnVsbA'')) = Inl TypeError"
proof -
  have sp: "str_split (CHR ''.'') (''e30'' @ CHR ''.'' # ''bnVsbA'' @ CHR ''.'' #
      url_signature secret ''e30.bnVsbA'') =
      [''e30'', ''bnVsbA'', url_signature secret ''e30.bnVsbA'']"
    by (rule str_split3 [OF _ _ url_signature_no_dot]) simp_all
  have a: "ascii ''bnVsbA''" "ascii ''bnVsbA==''"
    by (simp_all add: ascii_def ord_def)
  have f: "fromBase64Url ''bnVsbA'' = ''bnVsbA==''"
    by (simp add: fromBase64Url_def replace_all_def str_length_ascii [OF a(1)]
        numeral_2_eq_2)
  have dec: "Buffer_toString (base64_decode (fromBase64Url ''bnVsbA'')) = ''null''"
    unfolding f base64_decode_def low_bytes_ascii [OF a(2)]
    by (simp add: List.map_filter_def unbase64_def ord_def chr_def Buffer_toString_def)
  have "JSON_parse ''null'' = Inr Null"
    by (simp add: JSON_parse_def parse_value.simps skip_ws_def json_ws_def)
  then show ?thesis
    using sp dec by (simp add: verifyToken_try_def Let_def url_signature_def bind_def)
qed

section \<open>Claims\<close>



text \<open>
  C2. The claim: with \<open>JWT_SECRET\<close> absent the service refuses to start and never mints or
  verifies under a built-in key. The code falls back instead: with the variable absent the
  secret is \<open>default-secret-change-in-production\<close>, and a token minted under it is verified
  under it.
\<close>

theorem C2_absent_secret_counterexample:
  "JWT_SECRET None = ''default-secret-change-in-production'' \<and>
   verifyToken (JWT_SECRET None) 2000
     (login_generateToken (JWT_SECRET None) 1000 1000 ''u1'' ''o1'') =
     Inr (Some \<lparr>userId = Str ''u1'', openid = Str ''o1''\<rparr>)"
  by (simp add: login_token_verified) (simp add: JWT_SECRET_def)

text \<open>
  C2 as amended: an absent or empty \<open>JWT_SECRET\<close> is replaced by the built-in key
  \<open>default-secret-change-in-production\<close>, under which minting and verification proceed as
  under any other key; a non-empty value is used as it is.
\<close>

theorem C2_secret_falls_back_to_default:
  "JWT_SECRET None = ''default-secret-change-in-production'' \<and>
   JWT_SECRET (Some []) = ''default-secret-change-in-production'' \<and>
   JWT_SECRET (Some (c # cs)) = c # cs \<and>
   login_generateToken (JWT_SECRET None) t1 t2 u o' =
     login_generateToken ''default-secret-change-in-production'' t1 t2 u o' \<and>
   verifyToken (JWT_SECRET None) now token =
     verifyToken ''default-secret-change-in-production'' now token"
  by (simp add: JWT_SECRET_def)

text \<open>
  C3. The claim: a well-formed, correctly signed token is rejected whenever the current
  time is at or after its \<open>exp\<close>. The code tests \<open>decoded.exp < Date.now()\<close>, so at the
  instant \<open>exp\<close> itself the token is still accepted: the token minted at time 1000 expires
  at 604801000 and is verified at 604801000.
\<close>

theorem C3_boundary_counterexample:
  "verifyToken ''s3cret'' 604801000 (login_generateToken ''s3cret'' 1000 1000 ''u1'' ''o1'') =
     Inr (Some \<lparr>userId = Str ''u1'', openid = Str ''o1''\<rparr>)"
  by (simp add: login_token_verified)

text \<open>
  C3 as amended: for a token of three sections whose signature is the expected one and
  whose payload decodes to a value with a finite number \<open>exp\<close> (the double that
  \<open>JSON.parse\<close> gives), \<open>verifyToken\<close> returns \<open>null\<close> exactly when \<open>exp\<close> is less than the
  current time; at the instant \<open>exp\<close> and before it the token is accepted. The code has no
  ttl argument: \<open>exp\<close> is seven days after the clock reading at minting, so a minted token
  is rejected exactly when the current time is more than seven days after that reading.
\<close>

theorem C3_rejected_iff_exp_before_now:
  assumes "str_split (CHR ''.'') token = [header, payload, signature]"
      and "signature = url_signature secret (header @ ''.'' @ payload)"
      and "JSON_parse (Buffer_toString (base64_decode (fromBase64Url payload))) = Inr decoded"
      and "get_prop decoded ''exp'' = Inr (Num (Finite x))"
      and "time_value now"
      and "utf8_valid u" and "utf8_valid o'" and "time_value t1" and "time_value t2"
  shows "(verifyToken secret now token = Inr None) = (x < of_int now) \<and>
         (verifyToken secret now (login_generateToken secret t1 t2 u o') = Inr None) =
           (t2 + 7 * 24 * 60 * 60 * 1000 < now)"
proof -
  obtain s where s: "get_prop decoded ''sub'' = Inr s"
    using get_prop_total [OF assms(4)] by blast
  obtain i where i: "get_prop decoded ''openid'' = Inr i"
    using get_prop_total [OF assms(4)] by blast
  have "(verifyToken secret now token = Inr None) = (x < of_int now)"
    unfolding verifyToken_def verifyToken_try_def Let_def assms(1)
    using assms(2,3,4) s i
    by (simp add: url_signature_def bind_def less_than_now_def)
  then show ?thesis
    using login_round_trip [OF assms(6-9), of secret now] by simp
qed

theorem C3_rejected_iff_exp_before_now_witness:
  "verifyToken ''s3cret'' 604801001 (login_generateToken ''s3cret'' 1000 1000 ''u1'' ''o1'') =
     Inr None \<and>
   verifyToken ''s3cret'' 604801000 (login_generateToken ''s3cret'' 1000 1000 ''u1'' ''o1'') \<noteq>
     Inr None"
proof -
  let ?p = "JSON_stringify [(''sub'', LStr ''u1''), (''openid'', LStr ''o1''),
      (''iat'', LInt 1000), (''exp'', LInt (1000 + 7 * 24 * 60 * 60 * 1000))]"
  have v: "utf8_valid ''u1''" "utf8_valid ''o1''" "time_value 1000"
    "time_value 604801001" "time_value 604801000"
    by (simp_all add: time_value_def ord_def)
  have n: "\<bar>1000 :: int\<bar> < 2 ^ 53" "\<bar>1000 + 7 * 24 * 60 * 60 * 1000 :: int\<bar> < 2 ^ 53"
    by simp_all
  have d: "JSON_parse (Buffer_toString (base64_decode (fromBase64Url (toBase64Url ?p)))) =
      Inr (Obj [(''sub'', Str ''u1''), (''openid'', Str ''o1''),
                (''iat'', Num (Finite (of_int 1000))),
                (''exp'', Num (Finite (of_int (1000 + 7 * 24 * 60 * 60 * 1000))))])"
    unfolding base64_decode_url scrub_payload [OF v(1,2)] by (rule parse_payload [OF n])
  have e: "get_prop (Obj [(''sub'', Str ''u1''), (''openid'', Str ''o1''),
                (''iat'', Num (Finite (of_int 1000))),
                (''exp'', Num (Finite (of_int (1000 + 7 * 24 * 60 * 60 * 1000))))]) ''exp'' =
      Inr (Num (Finite 604801000))"
    by simp
  show ?thesis
    using C3_rejected_iff_exp_before_now [OF login_generateToken_split refl d e v(4) v(1,2,3,3)]
      C3_rejected_iff_exp_before_now [OF login_generateToken_split refl d e v(5) v(1,2,3,3)]
    by simp
qed

text \<open>
  C4. The claim: a token of \<open>generateToken\<close> has three sections separated by dots, each
  without \<open>+\<close>, \<open>/\<close> or \<open>=\<close>. The token has three sections, but the code writes them in
  standard Base64: for user \<open>u1\<close>, openid \<open>o1\<close> at time 1000 the payload section ends with
  \<open>=\<close>, and so does the signature section, whatever the secret, since a digest of 32
  bytes is always padded (\<open>signature_padded\<close>). The sibling \<open>generateToken\<close> of the login
  route does what is claimed (\<open>login_generateToken_sections\<close>).
\<close>

theorem C4_minted_token_has_padding:
  "length (str_split (CHR ''.'') (generateToken ''s3cret'' 1000 1000 ''u1'' ''o1'')) = 3 \<and>
   str_split (CHR ''.'') (generateToken ''s3cret'' 1000 1000 ''u1'' ''o1'') ! 1 =
     ''eyJzdWIiOiJ1MSIsIm9wZW5pZCI6Im8xIiwiaWF0IjoxMDAwLCJleHAiOjYwNDgwMTAwMH0='' \<and>
   last (str_split (CHR ''.'') (generateToken ''s3cret'' 1000 1000 ''u1'' ''o1'') ! 2) = CHR ''=''"
proof -
  have "base64_encode (JSON_stringify [(''sub'', LStr ''u1''), (''openid'', LStr ''o1''),
      (''iat'', LInt 1000), (''exp'', LInt (1000 + 7 * 24 * 60 * 60 * 1000))]) =
     ''eyJzdWIiOiJ1MSIsIm9wZW5pZCI6Im8xIiwiaWF0IjoxMDAwLCJleHAiOjYwNDgwMTAwMH0=''"
    by (simp add: JSON_stringify_def quote_def quote_char_def ord_def
        b64_char_def b64_alphabet_def show_int_def show_nat.simps)
  then show ?thesis
    unfolding generateToken_split using signature_padded by simp
qed

text \<open>
  C5. Fail closed: a request from the WeChat client to a path under \<open>/api/blessing\<close> for
  which resolving the client address or the rate-limit check throws (as the check does
  when its round trip to the store fails) is answered with status 503 and is not
  forwarded.
\<close>

theorem C5_fail_closed:
  assumes "user_agent req = Some ua" and "isWeChatMiniProgram ua"
      and "str_startsWith (pathname req) ''/api/blessing''"
      and "getClientIP req = Inl e \<or> (getClientIP req = Inr ip \<and> checkRateLimit ip = Inl e)"
  shows "status (fst (middleware getClientIP checkRateLimit req)) = 503 \<and>
         \<not> forwarded (fst (middleware getClientIP checkRateLimit req))"
  using assms by (auto simp: middleware_def NextResponse_json_def)

theorem C5_fail_closed_witness:
  "status (fst (middleware (\<lambda>r. Inr ''203.0.113.5'')
      (spec_checkRateLimit 60000 5 1000 (\<lambda>key. Inl (Error ''store unreachable'')))
      \<lparr>user_agent = Some ''MicroMessenger/8.0'', pathname = ''/api/blessing'',
       auth_token_cookie = None, authorization = None\<rparr>)) = 503 \<and>
   \<not> forwarded (fst (middleware (\<lambda>r. Inr ''203.0.113.5'')
      (spec_checkRateLimit 60000 5 1000 (\<lambda>key. Inl (Error ''store unreachable'')))
      \<lparr>user_agent = Some ''MicroMessenger/8.0'', pathname = ''/api/blessing'',
       auth_token_cookie = None, authorization = None\<rparr>))"
proof -
  let ?req = "\<lparr>user_agent = Some ''MicroMessenger/8.0'', pathname = ''/api/blessing'',
       auth_token_cookie = None, authorization = None\<rparr>"
  let ?check = "spec_checkRateLimit 60000 5 1000 (\<lambda>key. Inl (Error ''store unreachable''))"
  have h1: "user_agent ?req = Some ''MicroMessenger/8.0''" by simp
  have h2: "isWeChatMiniProgram ''MicroMessenger/8.0''" by (simp add: isWeChatMiniProgram_def)
  have h3: "str_startsWith (pathname ?req) ''/api/blessing''" by simp
  have h4: "(\<lambda>r. Inr ''203.0.113.5'') ?req = Inl (Error ''store unreachable'') \<or>
     ((\<lambda>r. Inr ''203.0.113.5'') ?req = Inr ''203.0.113.5'' \<and>
      ?check ''203.0.113.5'' = Inl (Error ''store unreachable''))"
    by (simp add: spec_checkRateLimit_def)
  show ?thesis
    using C5_fail_closed [where req = ?req and ua = "''MicroMessenger/8.0''"
        and getClientIP = "\<lambda>r. Inr ''203.0.113.5''" and checkRateLimit = ?check
        and ip = "''203.0.113.5''" and e = "Error ''store unreachable''"] h1 h2 h3 h4
    by blast
qed

text \<open>
  C6 is about the running time of the comparison \<open>signature !== expectedSignature\<close>. The
  source compares with the built-in operator, which is equality here: a truth value
  without a cost. How long the engine takes, and whether that depends on the position of
  the first difference, is not a property of these definitions, so no theorem states it.
\<close>

text \<open>
  C7. The client check comes first: a request whose \<open>User-Agent\<close> does not contain
  \<open>MicroMessenger\<close> (or is missing) gets status 403 from the middleware, which then has
  called neither function of the rate limiter; the route handler answers 403 as well,
  before it looks for a token or calls \<open>verifyToken\<close>.
\<close>

theorem C7_client_check_first:
  assumes "\<not> isWeChatMiniProgram (case user_agent req of None \<Rightarrow> [] | Some ua \<Rightarrow> ua)"
  shows "status (fst (middleware getClientIP checkRateLimit req)) = 403 \<and>
         \<not> forwarded (fst (middleware getClientIP checkRateLimit req)) \<and>
         snd (middleware getClientIP checkRateLimit req) = [] \<and>
         status (fst (blessing_POST secret now handler req)) = 403 \<and>
         snd (blessing_POST secret now handler req) = []"
  using assms
  by (simp add: middleware_def blessing_POST_def NextResponse_json_def isWeChatMiniProgram_def)

theorem C7_client_check_first_witness:
  "\<not> isWeChatMiniProgram (case user_agent \<lparr>user_agent = Some ''Mozilla/5.0'',
       pathname = ''/api/blessing'', auth_token_cookie = Some ''a.b.c'',
       authorization = None\<rparr> of None \<Rightarrow> [] | Some ua \<Rightarrow> ua) \<and>
   status (fst (middleware (\<lambda>r. Inr ''203.0.113.5'') (\<lambda>ip. Inl (Error ''down''))
     \<lparr>user_agent = Some ''Mozilla/5.0'', pathname = ''/api/blessing'',
      auth_token_cookie = Some ''a.b.c'', authorization = None\<rparr>)) = 403 \<and>
   snd (middleware (\<lambda>r. Inr ''203.0.113.5'') (\<lambda>ip. Inl (Error ''down''))
     \<lparr>user_agent = Some ''Mozilla/5.0'', pathname = ''/api/blessing'',
      auth_token_cookie = Some ''a.b.c'', authorization = None\<rparr>) = [] \<and>
   status (fst (blessing_POST ''s3cret'' 1000 (\<lambda>p. NextResponse_json NoBody 200)
     \<lparr>user_agent = Some ''Mozilla/5.0'', pathname = ''/api/blessing'',
      auth_token_cookie = Some ''a.b.c'', authorization = None\<rparr>)) = 403 \<and>
   snd (blessing_POST ''s3cret'' 1000 (\<lambda>p. NextResponse_json NoBody 200)
     \<lparr>user_agent = Some ''Mozilla/5.0'', pathname = ''/api/blessing'',
      auth_token_cookie = Some ''a.b.c'', authorization = None\<rparr>) = []"
proof -
  let ?req = "\<lparr>user_agent = Some ''Mozilla/5.0'', pathname = ''/api/blessing'',
      auth_token_cookie = Some ''a.b.c'', authorization = None\<rparr>"
  have h: "\<not> isWeChatMiniProgram (case user_agent ?req of None \<Rightarrow> [] | Some ua \<Rightarrow> ua)"
    by (simp add: isWeChatMiniProgram_def)
  show ?thesis
    using h C7_client_check_first [OF h, of "\<lambda>r. Inr ''203.0.113.5''"
        "\<lambda>ip. Inl (Error ''down'')" "''s3cret''" 1000 "\<lambda>p. NextResponse_json NoBody 200"]
    by blast
qed

text \<open>
  C8. A token that does not split at the dots into exactly three parts is answered with
  \<open>null\<close>, and no library call is made for it: neither the signature is recomputed nor the
  payload decoded.
\<close>

theorem C8_wrong_number_of_parts:
  assumes "length (str_split (CHR ''.'') token) \<noteq> 3"
  shows "verifyToken_try secret now token = (Inr None, []) \<and>
         verifyToken secret now token = Inr None"
  using assms by (simp add: verifyToken_def verifyToken_try_def)

theorem C8_wrong_number_of_parts_witness:
  "length (str_split (CHR ''.'') ''abc.def'') \<noteq> 3 \<and>
   verifyToken_try ''s3cret'' 1000 ''abc.def'' = (Inr None, []) \<and>
   verifyToken ''s3cret'' 1000 ''abc.def'' = Inr None"
proof -
  have h: "length (str_split (CHR ''.'') ''abc.def'') \<noteq> 3" by simp
  show ?thesis using h C8_wrong_number_of_parts [OF h, of "''s3cret''" 1000] by simp
qed

text \<open>
  C9. When the rate-limit check completes for a request from the WeChat client to a path
  under \<open>/api/blessing\<close>, the response carries \<open>X-RateLimit-Limit\<close>,
  \<open>X-RateLimit-Remaining\<close> and \<open>X-RateLimit-Reset\<close> with the values of the result, whether
  the request is forwarded (\<open>success\<close>) or rejected, and a rejected request gets status
  429.
\<close>

theorem C9_rate_limit_headers:
  assumes "user_agent req = Some ua" and "isWeChatMiniProgram ua"
      and "str_startsWith (pathname req) ''/api/blessing''"
      and "getClientIP req = Inr ip" and "checkRateLimit ip = Inr lr"
  shows "headers_get (fst (middleware getClientIP checkRateLimit req)) ''X-RateLimit-Limit'' =
           Some (show_int (limit lr)) \<and>
         headers_get (fst (middleware getClientIP checkRateLimit req)) ''X-RateLimit-Remaining'' =
           Some (show_int (remaining lr)) \<and>
         headers_get (fst (middleware getClientIP checkRateLimit req)) ''X-RateLimit-Reset'' =
           Some (show_int (resetTime lr)) \<and>
         forwarded (fst (middleware getClientIP checkRateLimit req)) = success lr \<and>
         status (fst (middleware getClientIP checkRateLimit req)) =
           (if success lr then 200 else 429)"
  using assms
  by (simp add: middleware_def headers_get_def headers_set_def NextResponse_json_def
      NextResponse_next_def update_conv')

theorem C9_rate_limit_headers_witness:
  "headers_get (fst (middleware (\<lambda>r. Inr ''203.0.113.5'')
      (spec_checkRateLimit 60000 5 1000 (\<lambda>key. Inr 6))
      \<lparr>user_agent = Some ''MicroMessenger/8.0'', pathname = ''/api/blessing'',
       auth_token_cookie = None, authorization = None\<rparr>)) ''X-RateLimit-Limit'' = Some ''5'' \<and>
   headers_get (fst (middleware (\<lambda>r. Inr ''203.0.113.5'')
      (spec_checkRateLimit 60000 5 1000 (\<lambda>key. Inr 6))
      \<lparr>user_agent = Some ''MicroMessenger/8.0'', pathname = ''/api/blessing'',
       auth_token_cookie = None, authorization = None\<rparr>)) ''X-RateLimit-Remaining'' = Some ''0'' \<and>
   headers_get (fst (middleware (\<lambda>r. Inr ''203.0.113.5'')
      (spec_checkRateLimit 60000 5 1000 (\<lambda>key. Inr 6))
      \<lparr>user_agent = Some ''MicroMessenger/8.0'', pathname = ''/api/blessing'',
       auth_token_cookie = None, authorization = None\<rparr>)) ''X-RateLimit-Reset'' = Some ''60000'' \<and>
   status (fst (middleware (\<lambda>r. Inr ''203.0.113.5'')
      (spec_checkRateLimit 60000 5 1000 (\<lambda>key. Inr 6))
      \<lparr>user_agent = Some ''MicroMessenger/8.0'', pathname = ''/api/blessing'',
       auth_token_cookie = None, authorization = None\<rparr>)) = 429 \<and>
   headers_get (fst (middleware (\<lambda>r. Inr ''203.0.113.5'')
      (spec_checkRateLimit 60000 5 1000 (\<lambda>key. Inr 1))
      \<lparr>user_agent = Some ''MicroMessenger/8.0'', pathname = ''/api/blessing'',
       auth_token_cookie = None, authorization = None\<rparr>)) ''X-RateLimit-Remaining'' = Some ''4'' \<and>
   forwarded (fst (middleware (\<lambda>r. Inr ''203.0.113.5'')
      (spec_checkRateLimit 60000 5 1000 (\<lambda>key. Inr 1))
      \<lparr>user_agent = Some ''MicroMessenger/8.0'', pathname = ''/api/blessing'',
       auth_token_cookie = None, authorization = None\<rparr>))"
proof -
  let ?req = "\<lparr>user_agent = Some ''MicroMessenger/8.0'', pathname = ''/api/blessing'',
       auth_token_cookie = None, authorization = None\<rparr>"
  let ?get = "\<lambda>r :: request. (Inr ''203.0.113.5'' :: exn + string)"
  have h1: "user_agent ?req = Some ''MicroMessenger/8.0''" by simp
  have h2: "isWeChatMiniProgram ''MicroMessenger/8.0''" by (simp add: isWeChatMiniProgram_def)
  have h3: "str_startsWith (pathname ?req) ''/api/blessing''" by simp
  have h4: "?get ?req = Inr ''203.0.113.5''" by simp
  have over: "spec_checkRateLimit 60000 5 1000 (\<lambda>key. Inr 6) ''203.0.113.5'' =
      Inr \<lparr>success = False, limit = 5, remaining = 0, resetTime = 60000, error = None\<rparr>"
    by (simp add: spec_checkRateLimit_def)
  have under: "spec_checkRateLimit 60000 5 1000 (\<lambda>key. Inr 1) ''203.0.113.5'' =
      Inr \<lparr>success = True, limit = 5, remaining = 4, resetTime = 60000, error = None\<rparr>"
    by (simp add: spec_checkRateLimit_def)
  note r = C9_rate_limit_headers [where req = ?req and ua = "''MicroMessenger/8.0''"
      and getClientIP = ?get and ip = "''203.0.113.5''"
      and checkRateLimit = "spec_checkRateLimit 60000 5 1000 (\<lambda>key. Inr 6)", OF h1 h2 h3 h4 over]
  note a = C9_rate_limit_headers [where req = ?req and ua = "''MicroMessenger/8.0''"
      and getClientIP = ?get and ip = "''203.0.113.5''"
      and checkRateLimit = "spec_checkRateLimit 60000 5 1000 (\<lambda>key. Inr 1)", OF h1 h2 h3 h4 under]
  show ?thesis
    using r a by (simp add: show_int_def show_nat.simps)
qed

text \<open>
  C10. \<open>verifyToken\<close> is total: for every secret, time and token it returns \<open>null\<close> or a
  payload and no exception reaches the caller. Every function of the model is a
  terminating recursive function, and the \<open>catch\<close> clause absorbs what the block throws
  (as it does: \<open>block_throws_SyntaxError\<close>, \<open>block_throws_TypeError\<close>).
\<close>

theorem C10_verifyToken_never_throws:
  "verifyToken secret now token = Inr None \<or>
   (\<exists>p. verifyToken secret now token = Inr (Some p))"
  unfolding verifyToken_def
  by (cases "fst (verifyToken_try secret now token)") auto

end
